theory Spec2Isabelle
  imports Main
begin

section \<open>Python values, exceptions and outcomes\<close>

text \<open>
  The module \<open>monarch/pcf/app.py\<close> is modelled function by function. A Python call either
  returns, raises an exception, or ends the process through \<open>sys.exit\<close>; the three are
  kept apart in the result type.
\<close>

datatype exc =
  IndexError | KeyError string | AttributeError | AssertionError | TypeError | GaiError

datatype 'a outcome = Returned 'a | Raised exc | Exited string

text \<open>A port of a service endpoint is an integer or a string such as \<open>'all'\<close>.\<close>

datatype pyval = PStr string | PInt int

text \<open>Parsed JSON, as \<open>json.loads\<close> gives it: an object is kept as the list of its items,
  in their order. Numbers are integers here.\<close>

datatype json =
    JNull | JBool bool | JInt int | JStr string | JArr "json list"
  | JObj "(string \<times> json) list"

type_synonym jobject = "(string \<times> json) list"

section \<open>Data model\<close>

text \<open>\<open>AppInstance\<close>, with the fields its constructor is given in \<open>find_application_instances\<close>.\<close>

record app_instance =
  diego_id :: string
  diego_ip :: string
  cont_id :: "json option"
  cont_ip :: string
  app_ports :: "(int \<times> int) set"
  diego_vi :: "string option"

text \<open>\<open>Service\<close>, with the fields its constructor is given in \<open>add_custom_service\<close>;
  \<open>hosts\<close> is the list of (address, protocol, port) endpoints.\<close>

record service =
  svc_type :: string
  svc_name :: string
  svc_user :: "string option"
  svc_password :: "string option"
  hosts :: "(string \<times> string \<times> pyval) list"

text \<open>\<open>App\<close>, as \<open>__init__\<close> lays it out; \<open>guid\<close> is \<open>None\<close> until it is found.\<close>

record app =
  org :: string
  space :: string
  name :: string
  guid :: "string option"
  services :: "service list"
  instances :: "app_instance list"

text \<open>The \<open>ports\<close> argument of \<open>block\<close>: a string policy (\<open>'env'\<close>, \<open>'all'\<close>) or a
  custom collection of ports.\<close>

datatype ports_arg = PortsName string | PortsCustom "int list"

text \<open>A command handed to a remote shell: one string, or a batch of strings.\<close>

datatype cmd_arg = CmdStr string | CmdList "string list"

section \<open>The collaborators outside the module\<close>

text \<open>
  Every call that leaves the module (the primitives of \<open>AppInstance\<close>, the command
  executors of \<open>monarch.util\<close> and \<open>monarch.pcf.util\<close>, \<open>bosh.get_apps\<close>,
  \<open>gethostbyname\<close>) is recorded, in order, in a trace. What a call answers (return code
  and standard output) is given by a function that sees the whole trace so far, so the
  answer of a host may depend on everything done before. The flag of \<open>DiegoRunCmd\<close> tells
  whether \<open>suppress_output=True\<close> was passed.
\<close>

datatype call =
    InstBlock app_instance string ports_arg
  | InstUnblock app_instance "int list option"
  | InstRunCmd app_instance cmd_arg
  | InstShape app_instance "int option" "int option"
  | InstUnmanipulate app_instance
  | DiegoRunCmd string cmd_arg bool
  | CfTarget string string
  | RunCmd string
  | GetHostByName string
  | BoshGetApps

type_synonym trace = "call list"

type_synonym world = "call list \<Rightarrow> call \<Rightarrow> int \<times> string"

section \<open>Configuration and constants\<close>

text \<open>
  \<open>Config()\<close> comes from \<open>monarch.pcf.config\<close>; the module reads the keys below from it.
  The configuration is passed to every function that constructs it.
  \<open>custom_services\<close> is the value of the key \<open>'services'\<close> when it is there: per service
  its name, host, ports as (protocol, port) pairs, user and password.
\<close>

record custom_service =
  cs_name :: string
  cs_host :: string
  cs_ports :: "(string \<times> pyval) list"
  cs_user :: "string option"
  cs_password :: "string option"

record config =
  cf_cmd :: string
  service_whitelist :: "string list"
  host_port_whitelist :: "int list"
  container_port_whitelist :: "int list"
  custom_services :: "custom_service list option"

text \<open>
  \<open>TIMES_TO_REMOVE\<close> is imported from \<open>monarch.pcf\<close>; it is the bound of a \<open>range\<close>, and is
  taken as a parameter \<open>times_to_remove\<close> of the functions that use it.
\<close>

section \<open>Traffic blocking\<close>

text \<open>\<open>ports if not isinstance(ports, str) else None\<close>\<close>

definition explicit_ports :: "ports_arg \<Rightarrow> int list option" where
  "explicit_ports p = (case p of PortsName s \<Rightarrow> None | PortsCustom ps \<Rightarrow> Some ps)"

text \<open>\<open>App.unblock\<close>: the loop over \<open>self.instances\<close>; the results are not looked at.\<close>

fun unblock_loop :: "app_instance list \<Rightarrow> int list option \<Rightarrow> trace \<Rightarrow> trace" where
  "unblock_loop [] ps tr = tr"
| "unblock_loop (i # rest) ps tr = unblock_loop rest ps (tr @ [InstUnblock i ps])"

definition unblock :: "app \<Rightarrow> int list option \<Rightarrow> trace \<Rightarrow> trace" where
  "unblock self ps tr = unblock_loop (instances self) ps tr"

text \<open>\<open>App.block\<close>: the loop over \<open>self.instances\<close>, leaving at the first truthy
  return code after a call of \<open>self.unblock\<close>.\<close>

fun block_loop ::
  "world \<Rightarrow> app \<Rightarrow> string \<Rightarrow> ports_arg \<Rightarrow> app_instance list \<Rightarrow> trace \<Rightarrow> int \<times> trace" where
  "block_loop orc self direction ports [] tr = (0, tr)"
| "block_loop orc self direction ports (i # rest) tr =
     (let rcode = fst (orc tr (InstBlock i direction ports));
          tr1 = tr @ [InstBlock i direction ports]
      in if rcode \<noteq> 0 then (rcode, unblock self (explicit_ports ports) tr1)
         else block_loop orc self direction ports rest tr1)"

definition block :: "world \<Rightarrow> app \<Rightarrow> string \<Rightarrow> ports_arg \<Rightarrow> trace \<Rightarrow> int \<times> trace" where
  "block orc self direction ports tr =
     block_loop orc self direction ports (instances self) tr"

text \<open>The return code the \<open>k\<close>-th instance of \<open>insts\<close> gives to its \<open>block\<close>, when the
  instances before it have been blocked, in order, since the trace \<open>tr\<close>.\<close>

definition block_rcode ::
  "world \<Rightarrow> string \<Rightarrow> ports_arg \<Rightarrow> trace \<Rightarrow> app_instance list \<Rightarrow> nat \<Rightarrow> int" where
  "block_rcode orc direction ports tr insts k =
     fst (orc (tr @ map (\<lambda>i. InstBlock i direction ports) (take k insts))
              (InstBlock (insts ! k) direction ports))"

section \<open>Network shaping\<close>

text \<open>\<open>App.unmanipulate_network\<close>\<close>

fun unmanipulate_loop :: "app_instance list \<Rightarrow> trace \<Rightarrow> trace" where
  "unmanipulate_loop [] tr = tr"
| "unmanipulate_loop (i # rest) tr = unmanipulate_loop rest (tr @ [InstUnmanipulate i])"

definition unmanipulate_network :: "app \<Rightarrow> trace \<Rightarrow> trace" where
  "unmanipulate_network self tr = unmanipulate_loop (instances self) tr"

text \<open>Truth value of an optional limit: \<open>None\<close> and \<open>0\<close> are falsy.\<close>

definition truthy_limit :: "int option \<Rightarrow> bool" where
  "truthy_limit l = (case l of None \<Rightarrow> False | Some n \<Rightarrow> n \<noteq> 0)"

fun shape_loop ::
  "world \<Rightarrow> app \<Rightarrow> int option \<Rightarrow> int option \<Rightarrow> app_instance list \<Rightarrow> trace \<Rightarrow> int \<times> trace" where
  "shape_loop orc self dl ul [] tr = (0, tr)"
| "shape_loop orc self dl ul (i # rest) tr =
     (let rcode = fst (orc tr (InstShape i dl ul));
          tr1 = tr @ [InstShape i dl ul]
      in if rcode \<noteq> 0 then (rcode, unmanipulate_network self tr1)
         else shape_loop orc self dl ul rest tr1)"

text \<open>\<open>App.shape_network\<close>\<close>

definition shape_network ::
  "world \<Rightarrow> app \<Rightarrow> int option \<Rightarrow> int option \<Rightarrow> trace \<Rightarrow> int \<times> trace" where
  "shape_network orc self download_limit upload_limit tr =
     (if \<not> (truthy_limit download_limit \<or> truthy_limit upload_limit) then (0, tr)
      else shape_loop orc self download_limit upload_limit (instances self) tr)"

section \<open>Strings\<close>

text \<open>\<open>str\<close> of a natural number and of an integer, in decimal.\<close>

fun str_nat :: "nat \<Rightarrow> string" where
  "str_nat n = (if n < 10 then [''0123456789'' ! n]
                else str_nat (n div 10) @ [''0123456789'' ! (n mod 10)])"

declare str_nat.simps [simp del]

definition str_int :: "int \<Rightarrow> string" where
  "str_int i = (if i < 0 then CHR ''-'' # str_nat (nat (- i)) else str_nat (nat i))"

text \<open>\<open>str\<close> of a port value.\<close>

definition py_str :: "pyval \<Rightarrow> string" where
  "py_str v = (case v of PStr s \<Rightarrow> s | PInt i \<Rightarrow> str_int i)"

text \<open>\<open>sep.join(xs)\<close>\<close>

fun join :: "string \<Rightarrow> string list \<Rightarrow> string" where
  "join sep [] = []"
| "join sep [x] = x"
| "join sep (x # y # ys) = x @ sep @ join sep (y # ys)"

text \<open>\<open>sub in s\<close> for two strings.\<close>

fun contains :: "string \<Rightarrow> string \<Rightarrow> bool" where
  "contains sub [] = (sub = [])"
| "contains sub (c # cs) = (take (length sub) (c # cs) = sub \<or> contains sub cs)"

text \<open>\<open>s.splitlines()\<close>: a line ends at a line feed, a carriage return (with the line
  feed after it, if any), a vertical tab, a form feed, a file, group or record separator,
  or a next-line character; a last line that is empty is not given. Characters are
  bytes here, so the separators beyond one byte are out of reach.\<close>

definition is_linebreak :: "char \<Rightarrow> bool" where
  "is_linebreak c = (c \<in> {CHR 0x0A, CHR 0x0B, CHR 0x0C, CHR 0x0D, CHR 0x1C, CHR 0x1D,
                           CHR 0x1E, CHR 0x85})"

fun splitlines_from :: "string \<Rightarrow> string \<Rightarrow> string list" where
  "splitlines_from cur [] = (if cur = [] then [] else [cur])"
| "splitlines_from cur [c] =
     (if is_linebreak c then [cur] else [cur @ [c]])"
| "splitlines_from cur (c # d # cs) =
     (if c = CHR 0x0D \<and> d = CHR 0x0A then cur # splitlines_from [] cs
      else if is_linebreak c then cur # splitlines_from [] (d # cs)
      else splitlines_from (cur @ [c]) (d # cs))"

definition splitlines :: "string \<Rightarrow> string list" where
  "splitlines s = splitlines_from [] s"

section \<open>Service isolation\<close>

text \<open>The rule strings of \<open>block_services\<close>, one endpoint \<open>(sip, protocol, port)\<close> at a time:
  the list \<open>cmd\<close> is built, extended by the port clause unless the port is \<open>'all'\<close>, and
  joined with spaces.\<close>

definition egress_insert :: "app_instance \<Rightarrow> string \<times> string \<times> pyval \<Rightarrow> string" where
  "egress_insert inst h = (case h of (sip, protocol, port) \<Rightarrow>
     join '' '' ([''sudo'', ''iptables'', ''-I'', ''FORWARD'', ''1'', ''-s'', cont_ip inst,
                  ''-d'', sip, ''-p'', protocol]
                 @ (if port \<noteq> PStr ''all'' then [''--dport'', py_str port] else [])
                 @ [''-j'', ''DROP'']))"

definition ingress_insert :: "app_instance \<Rightarrow> string \<times> string \<times> pyval \<Rightarrow> string" where
  "ingress_insert inst h = (case h of (sip, protocol, port) \<Rightarrow>
     join '' '' ([''sudo'', ''iptables'', ''-I'', ''FORWARD'', ''1'', ''-d'', cont_ip inst,
                  ''-s'', sip, ''-p'', protocol]
                 @ (if port \<noteq> PStr ''all'' then [''--sport'', py_str port] else [])
                 @ [''-j'', ''DROP'']))"

text \<open>The rule strings of \<open>unblock_services\<close>.\<close>

definition egress_delete :: "app_instance \<Rightarrow> string \<times> string \<times> pyval \<Rightarrow> string" where
  "egress_delete inst h = (case h of (sip, protocol, port) \<Rightarrow>
     join '' '' ([''sudo'', ''iptables'', ''-D'', ''FORWARD'', ''-s'', cont_ip inst,
                  ''-d'', sip, ''-p'', protocol]
                 @ (if port \<noteq> PStr ''all'' then [''--dport'', py_str port] else [])
                 @ [''-j'', ''DROP'']))"

definition ingress_delete :: "app_instance \<Rightarrow> string \<times> string \<times> pyval \<Rightarrow> string" where
  "ingress_delete inst h = (case h of (sip, protocol, port) \<Rightarrow>
     join '' '' ([''sudo'', ''iptables'', ''-D'', ''FORWARD'', ''-d'', cont_ip inst,
                  ''-s'', sip, ''-p'', protocol]
                 @ (if port \<noteq> PStr ''all'' then [''--sport'', py_str port] else [])
                 @ [''-j'', ''DROP'']))"

text \<open>\<open>services and service['name'] not in services\<close>: the name filter is \<open>None\<close> or a
  list of names, and an empty list is falsy.\<close>

definition name_filtered :: "string list option \<Rightarrow> string \<Rightarrow> bool" where
  "name_filtered wanted n = (case wanted of None \<Rightarrow> False
                             | Some ns \<Rightarrow> ns \<noteq> [] \<and> n \<notin> set ns)"

text \<open>\<open>block_services\<close>, the loop over \<open>service['hosts']\<close>.\<close>

fun block_host_cmds ::
  "string \<Rightarrow> app_instance \<Rightarrow> (string \<times> string \<times> pyval) list \<Rightarrow> string list" where
  "block_host_cmds direction inst [] = []"
| "block_host_cmds direction inst (h # hs) =
     (if direction \<in> {''egress'', ''both''} then [egress_insert inst h] else [])
     @ (if direction \<in> {''ingress'', ''both''} then [ingress_insert inst h] else [])
     @ block_host_cmds direction inst hs"

text \<open>\<open>block_services\<close>, the loop over \<open>self.services\<close> with its two \<open>continue\<close>s.\<close>

fun block_service_cmds ::
  "config \<Rightarrow> string list option \<Rightarrow> string \<Rightarrow> app_instance \<Rightarrow> service list \<Rightarrow> string list" where
  "block_service_cmds cfg wanted direction inst [] = []"
| "block_service_cmds cfg wanted direction inst (s # ss) =
     (if svc_type s \<in> set (service_whitelist cfg)
        then block_service_cmds cfg wanted direction inst ss
      else if name_filtered wanted (svc_name s)
        then block_service_cmds cfg wanted direction inst ss
      else block_host_cmds direction inst (hosts s)
           @ block_service_cmds cfg wanted direction inst ss)"

text \<open>\<open>unblock_services\<close>, the loop over \<open>service['hosts']\<close>: each of the two delete
  commands is appended \<open>TIMES_TO_REMOVE\<close> times.\<close>

fun unblock_host_cmds ::
  "nat \<Rightarrow> app_instance \<Rightarrow> (string \<times> string \<times> pyval) list \<Rightarrow> string list" where
  "unblock_host_cmds times_to_remove inst [] = []"
| "unblock_host_cmds times_to_remove inst (h # hs) =
     replicate times_to_remove (egress_delete inst h)
     @ replicate times_to_remove (ingress_delete inst h)
     @ unblock_host_cmds times_to_remove inst hs"

text \<open>\<open>unblock_services\<close>, the loop over \<open>self.services\<close>.\<close>

fun unblock_service_cmds ::
  "config \<Rightarrow> nat \<Rightarrow> string list option \<Rightarrow> app_instance \<Rightarrow> service list \<Rightarrow> string list" where
  "unblock_service_cmds cfg times_to_remove wanted inst [] = []"
| "unblock_service_cmds cfg times_to_remove wanted inst (s # ss) =
     (if svc_type s \<in> set (service_whitelist cfg)
        then unblock_service_cmds cfg times_to_remove wanted inst ss
      else if name_filtered wanted (svc_name s)
        then unblock_service_cmds cfg times_to_remove wanted inst ss
      else unblock_host_cmds times_to_remove inst (hosts s)
           @ unblock_service_cmds cfg times_to_remove wanted inst ss)"

text \<open>\<open>App.unblock_services\<close>: the loop over \<open>self.instances\<close>. The batch goes to
  \<open>monarch.pcf.util.run_cmd_on_diego_cell\<close> with \<open>suppress_output=True\<close>; what the call
  returns is dropped.\<close>

fun unblock_services_loop ::
  "world \<Rightarrow> config \<Rightarrow> nat \<Rightarrow> app \<Rightarrow> string list option \<Rightarrow> app_instance list \<Rightarrow> trace \<Rightarrow> trace"
  where
  "unblock_services_loop orc cfg times_to_remove self wanted [] tr = tr"
| "unblock_services_loop orc cfg times_to_remove self wanted (i # rest) tr =
     (let cmds = unblock_service_cmds cfg times_to_remove wanted i (services self)
      in if cmds = [] then unblock_services_loop orc cfg times_to_remove self wanted rest tr
         else (let dropped = orc tr (DiegoRunCmd (diego_id i) (CmdList cmds) True)
               in unblock_services_loop orc cfg times_to_remove self wanted rest
                    (tr @ [DiegoRunCmd (diego_id i) (CmdList cmds) True])))"

definition unblock_services ::
  "world \<Rightarrow> config \<Rightarrow> nat \<Rightarrow> app \<Rightarrow> string list option \<Rightarrow> trace \<Rightarrow> trace" where
  "unblock_services orc cfg times_to_remove self wanted tr =
     unblock_services_loop orc cfg times_to_remove self wanted (instances self) tr"

text \<open>\<open>App.block_services\<close>: the loop over \<open>self.instances\<close>; the batch goes to the
  instance's own \<open>run_cmd_on_diego_cell\<close>.\<close>

fun block_services_loop ::
  "world \<Rightarrow> config \<Rightarrow> nat \<Rightarrow> app \<Rightarrow> string list option \<Rightarrow> string \<Rightarrow> app_instance list
   \<Rightarrow> trace \<Rightarrow> int \<times> trace" where
  "block_services_loop orc cfg times_to_remove self wanted direction [] tr = (0, tr)"
| "block_services_loop orc cfg times_to_remove self wanted direction (i # rest) tr =
     (let cmds = block_service_cmds cfg wanted direction i (services self)
      in if cmds = []
           then block_services_loop orc cfg times_to_remove self wanted direction rest tr
         else (let rcode = fst (orc tr (InstRunCmd i (CmdList cmds)));
                   tr1 = tr @ [InstRunCmd i (CmdList cmds)]
               in if rcode \<noteq> 0
                    then (rcode, unblock_services orc cfg times_to_remove self wanted tr1)
                  else block_services_loop orc cfg times_to_remove self wanted direction
                         rest tr1))"

text \<open>\<open>util.parse_direction\<close> is outside the module and is a parameter: it answers
  the parsed direction, or nothing. \<open>assert direction\<close> fails on \<open>None\<close> and on the
  empty string.\<close>

definition block_services ::
  "(string \<Rightarrow> string option) \<Rightarrow> world \<Rightarrow> config \<Rightarrow> nat \<Rightarrow> app \<Rightarrow> string list option
   \<Rightarrow> string \<Rightarrow> trace \<Rightarrow> int outcome \<times> trace" where
  "block_services parse_direction orc cfg times_to_remove self wanted direction tr =
     (case parse_direction direction of
        None \<Rightarrow> (Raised AssertionError, tr)
      | Some d \<Rightarrow>
          if d = [] then (Raised AssertionError, tr)
          else (case block_services_loop orc cfg times_to_remove self wanted d
                       (instances self) tr of
                  (rcode, tr') \<Rightarrow> (Returned rcode, tr')))"

section \<open>Process lifecycle control\<close>

text \<open>\<open>App.start_monit_process\<close>\<close>

fun start_monit_loop :: "string \<Rightarrow> app_instance list \<Rightarrow> trace \<Rightarrow> trace" where
  "start_monit_loop process [] tr = tr"
| "start_monit_loop process (i # rest) tr =
     start_monit_loop process rest
       (tr @ [InstRunCmd i (CmdStr (''sudo /var/vcap/bosh/bin/monit start '' @ process))])"

definition start_monit_process :: "app \<Rightarrow> string \<Rightarrow> trace \<Rightarrow> trace" where
  "start_monit_process self process tr = start_monit_loop process (instances self) tr"

text \<open>The filter on the lines of the output: lines of the search directory that are not
  the echo of the search command.\<close>

definition pid_files_of :: "string \<Rightarrow> string list" where
  "pid_files_of stdout =
     filter (\<lambda>l. contains ''/var/vcap/sys/run'' l \<and> \<not> contains ''find /var/vcap/sys/run'' l)
       (splitlines stdout)"

text \<open>\<open>App.kill_monit_process\<close>. Every path through the body of the loop returns, so
  only the first instance is visited; with no instance the call falls off the end and
  returns \<open>None\<close>.\<close>

definition kill_monit_process ::
  "world \<Rightarrow> app \<Rightarrow> string \<Rightarrow> trace \<Rightarrow> int option \<times> trace" where
  "kill_monit_process orc self process tr =
     (case instances self of
        [] \<Rightarrow> (None, tr)
      | app_instance # rest \<Rightarrow>
          (let find_cmd = CmdStr (''find /var/vcap/sys/run | grep '' @ process
                                  @ '' | grep --color=never pid'');
               rcode = fst (orc tr (InstRunCmd app_instance find_cmd));
               stdout = snd (orc tr (InstRunCmd app_instance find_cmd));
               tr1 = tr @ [InstRunCmd app_instance find_cmd];
               pid_files = pid_files_of stdout
           in if rcode \<noteq> 0 \<or> pid_files = [] then (Some rcode, tr1)
              else (let cmds = CmdList ((''sudo /var/vcap/bosh/bin/monit unmonitor '' @ process)
                                        # map (\<lambda>pf. ''sudo kill $(cat '' @ pf @ '')'') pid_files);
                        rcode2 = fst (orc tr1 (InstRunCmd app_instance cmds));
                        tr2 = tr1 @ [InstRunCmd app_instance cmds]
                    in if rcode2 \<noteq> 0 then (Some rcode2, start_monit_process self process tr2)
                       else (Some 0, tr2))))"

section \<open>Serialization\<close>

text \<open>\<open>App.serialize\<close>. \<open>Service.serialize\<close> and \<open>AppInstance.serialize\<close> belong to other
  modules and are parameters.\<close>

definition serialize ::
  "(service \<Rightarrow> json) \<Rightarrow> (app_instance \<Rightarrow> json) \<Rightarrow> app \<Rightarrow> jobject" where
  "serialize serialize_service serialize_instance self =
     [(''org'', JStr (org self)),
      (''space'', JStr (space self)),
      (''name'', JStr (name self)),
      (''guid'', (case guid self of None \<Rightarrow> JNull | Some g \<Rightarrow> JStr g)),
      (''services'', JArr (map serialize_service (services self))),
      (''instances'', JArr (map serialize_instance (instances self)))]"

section \<open>Topology discovery\<close>

text \<open>
  What \<open>bosh.get_apps\<close> reports for one instance, with the keys that
  \<open>find_application_instances\<close> reads; \<open>ports.get\<close> gives \<open>None\<close> for a TLS proxy port that
  is not reported.
\<close>

record port_mapping =
  host_port :: int
  container_port :: int
  host_tls_proxy_port :: "int option"
  container_tls_proxy_port :: "int option"

record raw_instance =
  raw_app_guid :: string
  raw_state :: string
  raw_address :: string
  raw_instance_address :: string
  raw_cell_id :: string
  raw_ports :: "port_mapping list"

text \<open>The nested lists of lines that \<open>util.group_lines_by_hanging_indent\<close> builds.\<close>

datatype grouping = GLine string | GGroup "grouping list"

text \<open>
  The functions of other modules that discovery calls, as parameters:
  \<open>bosh.get_apps\<close> (an empty or missing answer is \<open>[]\<close>), \<open>socket.gethostbyname\<close> (no
  answer when the lookup raises), \<open>util.extract_json\<close> (the JSON objects found in a
  text), \<open>util.group_lines_by_hanging_indent\<close>, \<open>util.find_string_in_grouping\<close> (the index
  path of the first match, empty when there is none), \<open>Service.from_service_info\<close>
  (no service when the result is falsy), and the character classes \<open>\d\<close> and \<open>\w\<close> of
  the \<open>re\<close> module, which go by the Unicode tables of the interpreter.
\<close>

record platform =
  bosh_get_apps :: "trace \<Rightarrow> raw_instance list"
  gethostbyname :: "string \<Rightarrow> string option"
  extract_json :: "string \<Rightarrow> jobject list"
  group_lines_by_hanging_indent :: "string \<Rightarrow> grouping list"
  find_string_in_grouping :: "grouping list \<Rightarrow> string \<Rightarrow> nat list"
  from_service_info :: "string \<Rightarrow> json \<Rightarrow> service option"
  re_digit :: "char \<Rightarrow> bool"
  re_word :: "char \<Rightarrow> bool"

subsection \<open>Custom services\<close>

text \<open>\<open>App.add_custom_service\<close>, called by \<open>App.add_services_from_cfg\<close> for each service of
  the configuration.\<close>

fun add_custom_services ::
  "platform \<Rightarrow> custom_service list \<Rightarrow> service list \<Rightarrow> trace \<Rightarrow> service list outcome \<times> trace"
  where
  "add_custom_services pf [] acc tr = (Returned acc, tr)"
| "add_custom_services pf (c # rest) acc tr =
     (case gethostbyname pf (cs_host c) of
        None \<Rightarrow> (Raised GaiError, tr @ [GetHostByName (cs_host c)])
      | Some addr \<Rightarrow>
          add_custom_services pf rest
            (acc @ [\<lparr>svc_type = ''custom'', svc_name = cs_name c, svc_user = cs_user c,
                     svc_password = cs_password c,
                     hosts = map (\<lambda>(protocol, port). (addr, protocol, port)) (cs_ports c)\<rparr>])
            (tr @ [GetHostByName (cs_host c)]))"

definition add_services_from_cfg ::
  "platform \<Rightarrow> config \<Rightarrow> app \<Rightarrow> trace \<Rightarrow> app outcome \<times> trace" where
  "add_services_from_cfg pf cfg self tr =
     (case custom_services cfg of
        None \<Rightarrow> (Returned self, tr)
      | Some declared \<Rightarrow>
          (case add_custom_services pf declared (services self) tr of
             (Returned ss, tr') \<Rightarrow> (Returned (self\<lparr>services := ss\<rparr>), tr')
           | (Raised e, tr') \<Rightarrow> (Raised e, tr')
           | (Exited m, tr') \<Rightarrow> (Exited m, tr')))"

subsection \<open>GUID resolution\<close>

text \<open>\<open>find_application_guid\<close>: the first line of the output is taken before the return
  code is looked at.\<close>

definition find_application_guid ::
  "world \<Rightarrow> config \<Rightarrow> string \<Rightarrow> trace \<Rightarrow> string outcome \<times> trace" where
  "find_application_guid orc cfg appname tr =
     (if appname = [] then (Raised AssertionError, tr)
      else (let cmd = cf_cmd cfg @ '' app '' @ appname @ '' --guid'';
                rcode = fst (orc tr (RunCmd cmd));
                stdout = snd (orc tr (RunCmd cmd));
                tr1 = tr @ [RunCmd cmd]
            in case splitlines stdout of
                 [] \<Rightarrow> (Raised IndexError, tr1)
               | first_line # others \<Rightarrow>
                   if rcode \<noteq> 0
                     then (Exited (''Failed retrieving the GUID for the specified app. Make sure ''
                                   @ appname @ '' is in this space!''), tr1)
                   else (Returned first_line, tr1)))"

subsection \<open>Instance resolution\<close>

text \<open>The loop over \<open>instance['ports']\<close> that fills the set \<open>app_ports\<close>, here \<open>found\<close>.
  Where the TLS pair is added both of its ports are there, so \<open>the\<close> is read on
  \<open>Some\<close> only.\<close>

fun app_ports_loop :: "config \<Rightarrow> port_mapping list \<Rightarrow> (int \<times> int) set \<Rightarrow> (int \<times> int) set" where
  "app_ports_loop cfg [] found = found"
| "app_ports_loop cfg (ports # rest) found =
     (let diego_port = host_port ports;
          cont_port = container_port ports;
          add_diego_port = (diego_port \<notin> set (host_port_whitelist cfg));
          add_cont_port = (cont_port \<notin> set (container_port_whitelist cfg));
          found1 = (if add_diego_port \<and> add_cont_port
                    then insert (diego_port, cont_port) found else found);
          diego_tls_port = host_tls_proxy_port ports;
          cont_tls_port = container_tls_proxy_port ports;
          add_diego_tls_port =
            (case diego_tls_port of None \<Rightarrow> False
             | Some dt \<Rightarrow> dt \<notin> set (host_port_whitelist cfg));
          add_cont_tls_port =
            (case cont_tls_port of None \<Rightarrow> False
             | Some ct \<Rightarrow> ct \<notin> set (container_port_whitelist cfg));
          found2 = (if add_diego_tls_port \<and> add_cont_tls_port
                    then insert (the diego_tls_port, the cont_tls_port) found1 else found1)
      in app_ports_loop cfg rest found2)"

text \<open>\<open>cont_ip.replace('.', r'\.')\<close>\<close>

definition escape_dots :: "string \<Rightarrow> string" where
  "escape_dots s = concat (map (\<lambda>c. if c = CHR ''.'' then [CHR 0x5C, CHR ''.''] else [c]) s)"

text \<open>\<open>re.match(r'\d+: ([\w-]+)(@[\w-]+)?:', line)\<close> and its first group. No character
  of a run can start what follows the run (a colon, a space and \<open>@\<close> are neither digits
  nor word characters), so the greedy match is the only one.\<close>

definition is_name_char :: "platform \<Rightarrow> char \<Rightarrow> bool" where
  "is_name_char pf c = (re_word pf c \<or> c = CHR ''-'')"

definition match_interface :: "platform \<Rightarrow> string \<Rightarrow> string option" where
  "match_interface pf line =
     (let r1 = dropWhile (re_digit pf) line
      in if takeWhile (re_digit pf) line = [] \<or> take 2 r1 \<noteq> '': '' then None
         else (let nm = takeWhile (is_name_char pf) (drop 2 r1);
                   r2 = dropWhile (is_name_char pf) (drop 2 r1)
               in if nm = [] then None
                  else if take 1 r2 = '':'' then Some nm
                  else if take 1 r2 = ''@''
                          \<and> takeWhile (is_name_char pf) (drop 1 r2) \<noteq> []
                          \<and> take 1 (dropWhile (is_name_char pf) (drop 1 r2)) = '':''
                    then Some nm
                  else None))"

text \<open>The lookup of the virtual interface in the output of \<open>ip a\<close>:
  \<open>stdout[index[0]][0]\<close> is the parent line of the match.\<close>

definition lookup_interface :: "platform \<Rightarrow> string \<Rightarrow> string \<Rightarrow> string option outcome" where
  "lookup_interface pf stdout container_ip =
     (let groups = group_lines_by_hanging_indent pf stdout;
          index = find_string_in_grouping pf groups (escape_dots container_ip)
      in case index of
           [] \<Rightarrow> Returned None
         | i0 # others \<Rightarrow>
             if length groups \<le> i0 then Raised IndexError
             else (case groups ! i0 of
                     GLine l \<Rightarrow>
                       (case l of
                          [] \<Rightarrow> Raised IndexError
                        | c # cs \<Rightarrow> (case match_interface pf [c] of
                                       None \<Rightarrow> Raised AssertionError
                                     | Some v \<Rightarrow> Returned (Some v)))
                   | GGroup [] \<Rightarrow> Raised IndexError
                   | GGroup (GLine l # others) \<Rightarrow>
                       (case match_interface pf l of
                          None \<Rightarrow> Raised AssertionError
                        | Some v \<Rightarrow> Returned (Some v))
                   | GGroup (GGroup g # others) \<Rightarrow> Raised TypeError))"

text \<open>\<open>util.extract_json(stdout)[0]['data']['container-guid']\<close>\<close>

definition lookup_container_id :: "platform \<Rightarrow> string \<Rightarrow> json outcome" where
  "lookup_container_id pf stdout =
     (case extract_json pf stdout of
        [] \<Rightarrow> Raised IndexError
      | obj # others \<Rightarrow>
          (case map_of obj ''data'' of
             None \<Rightarrow> Raised (KeyError ''data'')
           | Some (JObj kv) \<Rightarrow>
               (case map_of kv ''container-guid'' of
                  None \<Rightarrow> Raised (KeyError ''container-guid'')
                | Some g \<Rightarrow> Returned g)
           | Some other \<Rightarrow> Raised TypeError))"

text \<open>The body of the loop of \<open>find_application_instances\<close> for one running instance of
  the application.\<close>

definition resolve_instance ::
  "platform \<Rightarrow> world \<Rightarrow> config \<Rightarrow> raw_instance \<Rightarrow> trace \<Rightarrow> app_instance outcome \<times> trace" where
  "resolve_instance pf orc cfg instance tr =
     (let diego_ip1 = raw_address instance;
          cont_ip1 = raw_instance_address instance;
          diego_id1 = ''diego_cell/'' @ raw_cell_id instance;
          app_ports1 = app_ports_loop cfg (raw_ports instance) {};
          ip_a = DiegoRunCmd diego_id1 (CmdStr ''ip a'') False;
          tr1 = tr @ [ip_a]
      in case lookup_interface pf (snd (orc tr ip_a)) cont_ip1 of
           Raised e \<Rightarrow> (Raised e, tr1)
         | Exited m \<Rightarrow> (Exited m, tr1)
         | Returned diego_vi1 \<Rightarrow>
             (let cmd = DiegoRunCmd diego_id1
                          (CmdStr (''sudo cat /var/vcap/sys/log/rep/rep.stdout.log | grep ''
                                   @ cont_ip1 @ '' | tail -n 1'')) False;
                  tr2 = tr1 @ [cmd]
              in if fst (orc tr1 cmd) \<noteq> 0
                   then (Returned \<lparr>diego_id = diego_id1, diego_ip = diego_ip1, cont_id = None,
                                   cont_ip = cont_ip1, app_ports = app_ports1,
                                   diego_vi = diego_vi1\<rparr>, tr2)
                 else (case lookup_container_id pf (snd (orc tr1 cmd)) of
                         Raised e \<Rightarrow> (Raised e, tr2)
                       | Exited m \<Rightarrow> (Exited m, tr2)
                       | Returned g \<Rightarrow>
                           (Returned \<lparr>diego_id = diego_id1, diego_ip = diego_ip1,
                                      cont_id = Some g, cont_ip = cont_ip1,
                                      app_ports = app_ports1, diego_vi = diego_vi1\<rparr>, tr2))))"

fun instances_loop ::
  "platform \<Rightarrow> world \<Rightarrow> config \<Rightarrow> string \<Rightarrow> raw_instance list \<Rightarrow> app_instance list \<Rightarrow> trace
   \<Rightarrow> app_instance list outcome \<times> trace" where
  "instances_loop pf orc cfg app_guid [] acc tr = (Returned acc, tr)"
| "instances_loop pf orc cfg app_guid (instance # rest) acc tr =
     (if raw_app_guid instance \<noteq> app_guid then instances_loop pf orc cfg app_guid rest acc tr
      else if raw_state instance \<noteq> ''RUNNING''
        then instances_loop pf orc cfg app_guid rest acc tr
      else (case resolve_instance pf orc cfg instance tr of
              (Returned app_instance, tr') \<Rightarrow>
                instances_loop pf orc cfg app_guid rest (acc @ [app_instance]) tr'
            | (Raised e, tr') \<Rightarrow> (Raised e, tr')
            | (Exited m, tr') \<Rightarrow> (Exited m, tr')))"

text \<open>\<open>find_application_instances\<close>: \<open>None\<close> when nothing at all is reported.\<close>

definition find_application_instances ::
  "platform \<Rightarrow> world \<Rightarrow> config \<Rightarrow> string \<Rightarrow> trace \<Rightarrow> app_instance list option outcome \<times> trace"
  where
  "find_application_instances pf orc cfg app_guid tr =
     (let raw_apps = bosh_get_apps pf tr;
          tr1 = tr @ [BoshGetApps]
      in if raw_apps = [] then (Returned None, tr1)
         else (case instances_loop pf orc cfg app_guid raw_apps [] tr1 of
                 (Returned found, tr') \<Rightarrow> (Returned (Some found), tr')
               | (Raised e, tr') \<Rightarrow> (Raised e, tr')
               | (Exited m, tr') \<Rightarrow> (Exited m, tr')))"

subsection \<open>Service resolution\<close>

text \<open>
  \<open>==\<close> on parsed JSON: \<open>True\<close> and \<open>False\<close> equal 1 and 0, lists are equal element by
  element, and two objects are equal when they have the same keys with equal values,
  in whatever order.
\<close>

function json_eq :: "json \<Rightarrow> json \<Rightarrow> bool" where
  "json_eq u v =
     (case (u, v) of
        (JNull, JNull) \<Rightarrow> True
      | (JBool a, JBool b) \<Rightarrow> a = b
      | (JBool a, JInt n) \<Rightarrow> n = (if a then 1 else 0)
      | (JInt n, JBool a) \<Rightarrow> n = (if a then 1 else 0)
      | (JInt m, JInt n) \<Rightarrow> m = n
      | (JStr s, JStr t) \<Rightarrow> s = t
      | (JArr xs, JArr ys) \<Rightarrow>
          length xs = length ys \<and> (\<forall>k < length xs. json_eq (xs ! k) (ys ! k))
      | (JObj a, JObj b) \<Rightarrow>
          set (map fst a) = set (map fst b)
          \<and> (\<forall>k \<in> set (map fst a).
                case map_of a k of
                  None \<Rightarrow> False
                | Some x \<Rightarrow> (case map_of b k of None \<Rightarrow> False | Some y \<Rightarrow> json_eq x y))
      | _ \<Rightarrow> False)"
  by pat_completeness auto
termination
proof (relation "measure (\<lambda>(u, v). size u)", goal_cases)
  case 1
  show ?case by simp
next
  case (2 u v x y xs ys k)
  have "size (xs ! k) \<le> size_list size xs"
    using 2 by (intro size_list_estimation' [where x = "xs ! k"]) simp_all
  with 2 show ?case by auto
next
  case (3 u v x y a b k p q)
  then have "(k, p) \<in> set a" by (simp add: map_of_SomeD)
  then have "size_prod (\<lambda>s. 0) size (k, p) \<le> size_list (size_prod (\<lambda>s. 0) size) a"
    by (intro size_list_estimation' [where x = "(k, p)"]) simp_all
  with 3 show ?case by auto
qed

declare json_eq.simps [simp del]

text \<open>The test of \<open>list.remove\<close> on two objects of the list: the same object, or an
  equal one.\<close>

definition same_dict :: "jobject \<Rightarrow> jobject \<Rightarrow> bool" where
  "same_dict a b = (a = b \<or> json_eq (JObj a) (JObj b))"

text \<open>\<open>json_objs.remove(obj)\<close> takes out the first element that passes the test. The
  object at hand is in the list, so one is always found.\<close>

fun remove_first :: "jobject \<Rightarrow> jobject list \<Rightarrow> jobject list" where
  "remove_first obj [] = []"
| "remove_first obj (x # xs) = (if same_dict x obj then xs else x # remove_first obj xs)"

text \<open>
  \<open>for obj in json_objs: if 'VCAP_SERVICES' not in obj: json_objs.remove(obj)\<close>.
  The list is changed while it is walked: the walk goes by position, \<open>i\<close> is the
  position of the next element, and the walk ends when \<open>i\<close> reaches the length the
  list has by then.
\<close>

function remove_pass :: "nat \<Rightarrow> jobject list \<Rightarrow> jobject list" where
  "remove_pass i json_objs =
     (if i < length json_objs then
        (if ''VCAP_SERVICES'' \<notin> fst ` set (json_objs ! i)
           then remove_pass (Suc i) (remove_first (json_objs ! i) json_objs)
         else remove_pass (Suc i) json_objs)
      else json_objs)"
  by pat_completeness auto
termination
proof (relation "measure (\<lambda>(i, json_objs). length json_objs - i)", goal_cases)
  case 1
  show ?case by simp
next
  case (2 i json_objs)
  have "x \<in> set xs \<Longrightarrow> Suc (length (remove_first x xs)) = length xs" for x xs
    by (induction xs) (auto simp: same_dict_def)
  from this [of "json_objs ! i" json_objs] 2 show ?case by auto
next
  case (3 i json_objs)
  then show ?case by auto
qed

declare remove_pass.simps [simp del]

text \<open>\<open>for x in v\<close> over a JSON value: the elements of a list, the keys of an object,
  the characters of a string; anything else is not iterable.\<close>

definition py_iter :: "json \<Rightarrow> json list option" where
  "py_iter v = (case v of
                  JArr xs \<Rightarrow> Some xs
                | JObj kv \<Rightarrow> Some (map (\<lambda>(k, x). JStr k) kv)
                | JStr s \<Rightarrow> Some (map (\<lambda>c. JStr [c]) s)
                | _ \<Rightarrow> None)"

text \<open>The two nested loops over \<open>vservices.items()\<close> and the instance configurations.\<close>

fun services_loop ::
  "platform \<Rightarrow> (string \<times> json) list \<Rightarrow> service list \<Rightarrow> service list outcome" where
  "services_loop pf [] acc = Returned acc"
| "services_loop pf ((sname, sconfig) # rest) acc =
     (case py_iter sconfig of
        None \<Rightarrow> Raised TypeError
      | Some cfgs \<Rightarrow>
          services_loop pf rest (acc @ List.map_filter (from_service_info pf sname) cfgs))"

text \<open>\<open>find_application_services\<close>\<close>

definition find_application_services ::
  "platform \<Rightarrow> world \<Rightarrow> config \<Rightarrow> string \<Rightarrow> trace \<Rightarrow> service list outcome \<times> trace" where
  "find_application_services pf orc cfg appname tr =
     (let cmd = cf_cmd cfg @ '' env '' @ appname;
          rcode = fst (orc tr (RunCmd cmd));
          stdout = snd (orc tr (RunCmd cmd));
          tr1 = tr @ [RunCmd cmd]
      in if rcode \<noteq> 0
           then (Exited ''Failed to query application environment variables.'', tr1)
         else if extract_json pf stdout = []
           then (Exited ''Error reading output from `cf env`'', tr1)
         else (let json_objs = remove_pass 0 (extract_json pf stdout)
               in if length json_objs \<noteq> 1 then (Returned [], tr1)
                  else (case map_of (hd json_objs) ''VCAP_SERVICES'' of
                          None \<Rightarrow> (Raised (KeyError ''VCAP_SERVICES''), tr1)
                        | Some (JObj vservices) \<Rightarrow> (services_loop pf vservices [], tr1)
                        | Some other \<Rightarrow> (Raised AttributeError, tr1))))"

subsection \<open>Discovery and rediscovery\<close>

text \<open>\<open>App.discover\<close>: \<open>monarch.pcf.util.cf_target\<close> answers a return code. The methods
  \<open>find_guid\<close>, \<open>find_instances\<close> and \<open>find_services\<close> store what the module functions
  return and hand it back; an empty GUID and an empty or missing list of instances are
  falsy.\<close>

definition discover ::
  "platform \<Rightarrow> world \<Rightarrow> config \<Rightarrow> string \<Rightarrow> string \<Rightarrow> string \<Rightarrow> trace
   \<Rightarrow> app option outcome \<times> trace" where
  "discover pf orc cfg org_name space_name appname tr =
     (if fst (orc tr (CfTarget org_name space_name)) \<noteq> 0
        then (Returned None, tr @ [CfTarget org_name space_name])
      else (case add_services_from_cfg pf cfg
                   \<lparr>org = org_name, space = space_name, name = appname, guid = None,
                    services = [], instances = []\<rparr>
                   (tr @ [CfTarget org_name space_name]) of
              (Raised e, tr') \<Rightarrow> (Raised e, tr')
            | (Exited m, tr') \<Rightarrow> (Exited m, tr')
            | (Returned app1, tr2) \<Rightarrow>
                (case find_application_guid orc cfg (name app1) tr2 of
                   (Raised e, tr') \<Rightarrow> (Raised e, tr')
                 | (Exited m, tr') \<Rightarrow> (Exited m, tr')
                 | (Returned g, tr3) \<Rightarrow>
                     if g = [] then (Returned None, tr3)
                     else (case find_application_instances pf orc cfg g tr3 of
                             (Raised e, tr') \<Rightarrow> (Raised e, tr')
                           | (Exited m, tr') \<Rightarrow> (Exited m, tr')
                           | (Returned None, tr4) \<Rightarrow> (Returned None, tr4)
                           | (Returned (Some found), tr4) \<Rightarrow>
                               if found = [] then (Returned None, tr4)
                               else (case find_application_services pf orc cfg (name app1) tr4 of
                                       (Raised e, tr') \<Rightarrow> (Raised e, tr')
                                     | (Exited m, tr') \<Rightarrow> (Exited m, tr')
                                     | (Returned found_services, tr5) \<Rightarrow>
                                         (Returned (Some (app1\<lparr>guid := Some g,
                                                               instances := found,
                                                               services := found_services\<rparr>)),
                                          tr5))))))"

text \<open>\<open>App.undo_all\<close>\<close>

definition undo_all :: "world \<Rightarrow> config \<Rightarrow> nat \<Rightarrow> app \<Rightarrow> trace \<Rightarrow> trace" where
  "undo_all orc cfg times_to_remove self tr =
     unmanipulate_network self
       (unblock_services orc cfg times_to_remove self None (unblock self None tr))"

text \<open>\<open>App.rediscover\<close>: the outcome of the call, the fields of \<open>self\<close> after it, and the
  trace. \<open>new_app.__dict__\<close> is read before \<open>self.__dict__\<close> is assigned, and
  reading it from \<open>None\<close> raises.\<close>

definition rediscover ::
  "platform \<Rightarrow> world \<Rightarrow> config \<Rightarrow> nat \<Rightarrow> app \<Rightarrow> trace \<Rightarrow> unit outcome \<times> app \<times> trace" where
  "rediscover pf orc cfg times_to_remove self tr =
     (case discover pf orc cfg (org self) (space self) (name self)
             (undo_all orc cfg times_to_remove self tr) of
        (Raised e, tr') \<Rightarrow> (Raised e, self, tr')
      | (Exited m, tr') \<Rightarrow> (Exited m, self, tr')
      | (Returned None, tr') \<Rightarrow> (Raised AttributeError, self, tr')
      | (Returned (Some new_app), tr') \<Rightarrow> (Returned (), new_app, tr'))"

section \<open>Example data\<close>

definition inst_a :: app_instance where
  "inst_a = \<lparr>diego_id = ''diego_cell/a'', diego_ip = ''10.0.1.1'', cont_id = Some (JStr ''c-a''),
            cont_ip = ''10.255.0.5'', app_ports = {(6100, 8080)}, diego_vi = Some ''eth0''\<rparr>"

definition inst_b :: app_instance where
  "inst_b = \<lparr>diego_id = ''diego_cell/b'', diego_ip = ''10.0.1.2'', cont_id = None,
            cont_ip = ''10.255.0.6'', app_ports = {(6101, 8080)}, diego_vi = None\<rparr>"

definition billing :: app where
  "billing = \<lparr>org = ''dev'', space = ''staging'', name = ''billing'', guid = Some ''abc-123'',
             services = [], instances = [inst_a, inst_b]\<rparr>"

text \<open>A world in which every call succeeds, and one in which only \<open>inst_b\<close> refuses to
  block, with code 1.\<close>

definition all_ok :: world where
  "all_ok tr c = (0, [])"

definition b_fails :: world where
  "b_fails tr c = (case c of InstBlock i d p \<Rightarrow> if i = inst_b then (1, []) else (0, [])
                   | _ \<Rightarrow> (0, []))"

text \<open>A configuration that whitelists the service type \<open>logger\<close>, the host port 22 and
  the container port 2222; an application with a database service and a whitelisted
  logging service.\<close>

definition cfg0 :: config where
  "cfg0 = \<lparr>cf_cmd = ''cf'', service_whitelist = [''logger''], host_port_whitelist = [22],
           container_port_whitelist = [2222], custom_services = None\<rparr>"

definition svc_mysql :: service where
  "svc_mysql = \<lparr>svc_type = ''p-mysql'', svc_name = ''mysql'', svc_user = Some ''u'',
                svc_password = Some ''p'', hosts = [(''10.0.9.9'', ''tcp'', PInt 3306)]\<rparr>"

definition svc_logger :: service where
  "svc_logger = \<lparr>svc_type = ''logger'', svc_name = ''syslog'', svc_user = None,
                 svc_password = None, hosts = [(''10.0.9.10'', ''udp'', PStr ''all'')]\<rparr>"

definition shop :: app where
  "shop = \<lparr>org = ''dev'', space = ''staging'', name = ''shop'', guid = Some ''def-456'',
          services = [svc_logger, svc_mysql], instances = [inst_a, inst_b]\<rparr>"

text \<open>A direction parser that knows the three canonical names, and a world in which
  every remote batch fails with code 1.\<close>

definition parse_direction0 :: "string \<Rightarrow> string option" where
  "parse_direction0 d = (if d \<in> {''egress'', ''ingress'', ''both''} then Some d else None)"

definition batches_fail :: world where
  "batches_fail tr c = (case c of DiegoRunCmd i cs q \<Rightarrow> (1, [])
                        | InstRunCmd i cs \<Rightarrow> (1, [])
                        | _ \<Rightarrow> (0, []))"

text \<open>A platform on which nothing is found: no instance is reported, no JSON object is
  in any output, no line matches. Host names resolve to themselves, and the character
  classes are those of ASCII text.\<close>

definition ascii_digit :: "char \<Rightarrow> bool" where
  "ascii_digit c = (c \<in> set ''0123456789'')"

definition ascii_word :: "char \<Rightarrow> bool" where
  "ascii_word c = (ascii_digit c \<or> c \<in> set ''abcdefghijklmnopqrstuvwxyz''
                   \<or> c \<in> set ''ABCDEFGHIJKLMNOPQRSTUVWXYZ'' \<or> c = CHR ''_'')"

definition pf0 :: platform where
  "pf0 = \<lparr>bosh_get_apps = (\<lambda>tr. []), gethostbyname = (\<lambda>h. Some h),
          extract_json = (\<lambda>s. []), group_lines_by_hanging_indent = (\<lambda>s. []),
          find_string_in_grouping = (\<lambda>g p. []), from_service_info = (\<lambda>n c. None),
          re_digit = ascii_digit, re_word = ascii_word\<rparr>"

text \<open>A platform whose outputs all hold the same two JSON objects, neither with the key
  \<open>VCAP_SERVICES\<close>.\<close>

definition pf_two_plain :: platform where
  "pf_two_plain = pf0\<lparr>extract_json :=
     (\<lambda>s. [[(''VCAP_APPLICATION'', JObj [(''name'', JStr ''billing'')])],
           [(''LIMITS'', JObj [(''mem'', JInt 512)])]])\<rparr>"

text \<open>A platform whose outputs all hold one JSON object, without the key.\<close>

definition pf_one_plain :: platform where
  "pf_one_plain = pf0\<lparr>extract_json :=
     (\<lambda>s. [[(''VCAP_APPLICATION'', JObj [(''name'', JStr ''billing'')])]])\<rparr>"

text \<open>A reported instance with three port mappings: one with a TLS proxy pair, one on a
  whitelisted host port, one on a whitelisted container port.\<close>

definition raw1 :: raw_instance where
  "raw1 = \<lparr>raw_app_guid = ''abc-123'', raw_state = ''RUNNING'', raw_address = ''10.0.1.1'',
           raw_instance_address = ''10.255.0.5'', raw_cell_id = ''a'',
           raw_ports =
             [\<lparr>host_port = 6100, container_port = 8080, host_tls_proxy_port = Some 6101,
               container_tls_proxy_port = Some 61001\<rparr>,
              \<lparr>host_port = 22, container_port = 8080, host_tls_proxy_port = None,
               container_tls_proxy_port = None\<rparr>,
              \<lparr>host_port = 6200, container_port = 2222, host_tls_proxy_port = Some 6201,
               container_tls_proxy_port = None\<rparr>]\<rparr>"

text \<open>Worlds in which the platform CLI fails with code 1 and prints nothing, and in
  which targeting the organization fails.\<close>

definition cf_fails_silently :: world where
  "cf_fails_silently tr c = (case c of RunCmd cmd \<Rightarrow> (1, []) | _ \<Rightarrow> (0, []))"

definition target_fails :: world where
  "target_fails tr c = (case c of CfTarget o1 s1 \<Rightarrow> (1, []) | _ \<Rightarrow> (0, []))"

text \<open>The instance that resolution makes of \<open>raw1\<close> when no interface line matches and
  the lookup of the container id fails.\<close>

definition ai1 :: app_instance where
  "ai1 = \<lparr>diego_id = ''diego_cell/a'', diego_ip = ''10.0.1.1'', cont_id = None,
          cont_ip = ''10.255.0.5'', app_ports = {(6101, 61001), (6100, 8080)},
          diego_vi = None\<rparr>"

text \<open>Serializers for a service and an instance that keep the name and the host id.\<close>

definition ser_service0 :: "service \<Rightarrow> json" where
  "ser_service0 s = JObj [(''type'', JStr (svc_type s)), (''name'', JStr (svc_name s))]"

definition ser_instance0 :: "app_instance \<Rightarrow> json" where
  "ser_instance0 i = JObj [(''diego_id'', JStr (diego_id i)), (''cont_ip'', JStr (cont_ip i))]"

text \<open>A platform whose outputs all hold two JSON objects that both have the key
  \<open>VCAP_SERVICES\<close>.\<close>

definition pf_two_keyed :: platform where
  "pf_two_keyed = pf0\<lparr>extract_json :=
     (\<lambda>s. [[(''VCAP_SERVICES'', JObj [])], [(''VCAP_SERVICES'', JObj [])]])\<rparr>"

text \<open>Platforms for an application bound to one database service: the outputs hold the
  object with the key \<open>VCAP_SERVICES\<close> and then, on the first platform, one object without
  it, on the second, two such objects one after the other.\<close>

definition pf_bound :: platform where
  "pf_bound = pf0\<lparr>extract_json :=
     (\<lambda>s. [[(''VCAP_SERVICES'', JObj [(''p-mysql'', JArr [JObj [(''name'', JStr ''mysql'')]])])],
           [(''VCAP_APPLICATION'', JObj [(''name'', JStr ''billing'')])]]),
     from_service_info := (\<lambda>sname instance_cfg. Some svc_mysql)\<rparr>"

definition pf_bound_two_plain :: platform where
  "pf_bound_two_plain = pf0\<lparr>extract_json :=
     (\<lambda>s. [[(''VCAP_SERVICES'', JObj [(''p-mysql'', JArr [JObj [(''name'', JStr ''mysql'')]])])],
           [(''VCAP_APPLICATION'', JObj [(''name'', JStr ''billing'')])],
           [(''LIMITS'', JObj [(''mem'', JInt 512)])]]),
     from_service_info := (\<lambda>sname instance_cfg. Some svc_mysql)\<rparr>"

section \<open>Properties of traffic blocking\<close>

lemma unblock_loop_trace:
  "unblock_loop insts ps tr = tr @ map (\<lambda>i. InstUnblock i ps) insts"
  by (induction insts arbitrary: tr) simp_all

lemma block_loop_all_zero:
  "(\<And>j. j < length rest \<Longrightarrow> block_rcode orc d p tr rest j = 0) \<Longrightarrow>
   block_loop orc self d p rest tr = (0, tr @ map (\<lambda>i. InstBlock i d p) rest)"
proof (induction rest arbitrary: tr)
  case Nil
  show ?case by simp
next
  case (Cons i rest)
  have first: "fst (orc tr (InstBlock i d p)) = 0"
    using Cons.prems [of 0] by (simp add: block_rcode_def)
  have later: "block_rcode orc d p (tr @ [InstBlock i d p]) rest j = 0" if "j < length rest" for j
    using Cons.prems [of "Suc j"] that by (simp add: block_rcode_def)
  show ?case
    using first Cons.IH [of "tr @ [InstBlock i d p]"] later by simp
qed

lemma block_loop_first_failure:
  "k < length rest \<Longrightarrow>
   (\<And>j. j < k \<Longrightarrow> block_rcode orc d p tr rest j = 0) \<Longrightarrow>
   block_rcode orc d p tr rest k \<noteq> 0 \<Longrightarrow>
   block_loop orc self d p rest tr =
     (block_rcode orc d p tr rest k,
      unblock self (explicit_ports p) (tr @ map (\<lambda>i. InstBlock i d p) (take (Suc k) rest)))"
proof (induction rest arbitrary: tr k)
  case Nil
  then show ?case by simp
next
  case (Cons i rest)
  show ?case
  proof (cases k)
    case 0
    with Cons.prems show ?thesis by (simp add: block_rcode_def)
  next
    case (Suc m)
    have first: "fst (orc tr (InstBlock i d p)) = 0"
      using Cons.prems(2) [of 0] Suc by (simp add: block_rcode_def)
    have shift: "block_rcode orc d p (tr @ [InstBlock i d p]) rest j =
                 block_rcode orc d p tr (i # rest) (Suc j)" for j
      by (simp add: block_rcode_def)
    have m: "m < length rest" using Cons.prems(1) Suc by simp
    have zeros: "block_rcode orc d p (tr @ [InstBlock i d p]) rest j = 0" if "j < m" for j
      using Cons.prems(2) [of "Suc j"] that Suc shift by simp
    have bad: "block_rcode orc d p (tr @ [InstBlock i d p]) rest m \<noteq> 0"
      using Cons.prems(3) Suc shift by simp
    show ?thesis
      using first Cons.IH [OF m zeros bad] Suc shift by simp
  qed
qed

text \<open>
  C1. When instance \<open>k\<close> is the first whose block returns a non-zero code \<open>c\<close>, \<open>App.block\<close>
  returns \<open>c\<close>, and what it has done is: one block on each of the instances up to and
  including \<open>k\<close> (none on the later ones), followed by one unblock on every instance of
  the application, with the custom ports if \<open>ports\<close> was a custom collection and with no
  ports if it was a string. When every instance returns 0, \<open>App.block\<close> returns 0 and has
  done one block on each instance and no unblock.
\<close>

theorem block_rollback_on_first_failure:
  "(k < length (instances self) \<and>
    (\<forall>j<k. block_rcode orc d p tr (instances self) j = 0) \<and>
    block_rcode orc d p tr (instances self) k = c \<and> c \<noteq> 0
    \<longrightarrow> block orc self d p tr =
          (c, tr @ map (\<lambda>i. InstBlock i d p) (take (Suc k) (instances self))
                 @ map (\<lambda>i. InstUnblock i (case p of PortsName s \<Rightarrow> None
                                                   | PortsCustom ps \<Rightarrow> Some ps))
                       (instances self)))
   \<and>
   ((\<forall>j<length (instances self). block_rcode orc d p tr (instances self) j = 0)
    \<longrightarrow> block orc self d p tr = (0, tr @ map (\<lambda>i. InstBlock i d p) (instances self)))"
proof (intro conjI impI)
  assume h: "k < length (instances self) \<and>
    (\<forall>j<k. block_rcode orc d p tr (instances self) j = 0) \<and>
    block_rcode orc d p tr (instances self) k = c \<and> c \<noteq> 0"
  then have "block_loop orc self d p (instances self) tr =
     (block_rcode orc d p tr (instances self) k,
      unblock self (explicit_ports p)
        (tr @ map (\<lambda>i. InstBlock i d p) (take (Suc k) (instances self))))"
    by (intro block_loop_first_failure) auto
  with h show "block orc self d p tr =
          (c, tr @ map (\<lambda>i. InstBlock i d p) (take (Suc k) (instances self))
                 @ map (\<lambda>i. InstUnblock i (case p of PortsName s \<Rightarrow> None
                                                   | PortsCustom ps \<Rightarrow> Some ps))
                       (instances self))"
    by (simp add: block_def unblock_def unblock_loop_trace explicit_ports_def)
next
  assume "\<forall>j<length (instances self). block_rcode orc d p tr (instances self) j = 0"
  then show "block orc self d p tr = (0, tr @ map (\<lambda>i. InstBlock i d p) (instances self))"
    by (simp add: block_def block_loop_all_zero)
qed

theorem block_rollback_on_first_failure_witness:
  "block b_fails billing ''ingress'' (PortsName ''all'') [] =
     (1, [InstBlock inst_a ''ingress'' (PortsName ''all''),
          InstBlock inst_b ''ingress'' (PortsName ''all''),
          InstUnblock inst_a None, InstUnblock inst_b None])
   \<and> block all_ok billing ''ingress'' (PortsCustom [8080]) [] =
     (0, [InstBlock inst_a ''ingress'' (PortsCustom [8080]),
          InstBlock inst_b ''ingress'' (PortsCustom [8080])])"
proof -
  have ne: "inst_a \<noteq> inst_b" by (simp add: inst_a_def inst_b_def)
  have h: "1 < length (instances billing) \<and>
    (\<forall>j<1. block_rcode b_fails ''ingress'' (PortsName ''all'') [] (instances billing) j = 0) \<and>
    block_rcode b_fails ''ingress'' (PortsName ''all'') [] (instances billing) 1 = 1 \<and>
    (1::int) \<noteq> 0"
    using ne by (simp add: billing_def block_rcode_def b_fails_def)
  have z: "\<forall>j<length (instances billing).
     block_rcode all_ok ''ingress'' (PortsCustom [8080]) [] (instances billing) j = 0"
    by (simp add: block_rcode_def all_ok_def)
  have a: "block b_fails billing ''ingress'' (PortsName ''all'') [] =
     (1, [InstBlock inst_a ''ingress'' (PortsName ''all''),
          InstBlock inst_b ''ingress'' (PortsName ''all''),
          InstUnblock inst_a None, InstUnblock inst_b None])"
    using block_rollback_on_first_failure
      [where k = 1 and self = billing and orc = b_fails and d = "''ingress''"
         and p = "PortsName ''all''" and tr = "[]" and c = 1] h
    by (simp add: billing_def)
  have b: "block all_ok billing ''ingress'' (PortsCustom [8080]) [] =
     (0, [InstBlock inst_a ''ingress'' (PortsCustom [8080]),
          InstBlock inst_b ''ingress'' (PortsCustom [8080])])"
    using block_rollback_on_first_failure
      [where self = billing and orc = all_ok and d = "''ingress''"
         and p = "PortsCustom [8080]" and tr = "[]"] z
    by (simp add: billing_def)
  show ?thesis using a b by simp
qed

section \<open>Properties of service isolation\<close>

lemma block_service_cmds_drop_whitelisted:
  "block_service_cmds cfg wanted d i
     (filter (\<lambda>s. svc_type s \<notin> set (service_whitelist cfg)) ss) =
   block_service_cmds cfg wanted d i ss"
  by (induction ss) simp_all

lemma unblock_service_cmds_drop_whitelisted:
  "unblock_service_cmds cfg n wanted i
     (filter (\<lambda>s. svc_type s \<notin> set (service_whitelist cfg)) ss) =
   unblock_service_cmds cfg n wanted i ss"
  by (induction ss) simp_all

lemma unblock_services_loop_cong:
  "(\<And>i. unblock_service_cmds cfg n wanted i (services self') =
         unblock_service_cmds cfg n wanted i (services self)) \<Longrightarrow>
   unblock_services_loop orc cfg n self' wanted insts tr =
   unblock_services_loop orc cfg n self wanted insts tr"
  by (induction insts arbitrary: tr) (simp_all add: Let_def)

lemma block_services_loop_cong:
  "(\<And>i. block_service_cmds cfg wanted d i (services self') =
         block_service_cmds cfg wanted d i (services self)) \<Longrightarrow>
   (\<And>i. unblock_service_cmds cfg n wanted i (services self') =
         unblock_service_cmds cfg n wanted i (services self)) \<Longrightarrow>
   instances self' = instances self \<Longrightarrow>
   block_services_loop orc cfg n self' wanted d insts tr =
   block_services_loop orc cfg n self wanted d insts tr"
proof (induction insts arbitrary: tr)
  case Nil
  show ?case by simp
next
  case (Cons i rest)
  have u: "unblock_services orc cfg n self' wanted t = unblock_services orc cfg n self wanted t"
    for t
    unfolding unblock_services_def Cons.prems(3)
    by (rule unblock_services_loop_cong) (rule Cons.prems(2))
  show ?case
    using Cons.IH [OF Cons.prems] Cons.prems(1) [of i] u by (simp add: Let_def)
qed

lemma block_service_cmds_origin:
  "c \<in> set (block_service_cmds cfg wanted d i ss) \<Longrightarrow>
   \<exists>s \<in> set ss. svc_type s \<notin> set (service_whitelist cfg)
      \<and> c \<in> set (block_host_cmds d i (hosts s))"
  by (induction ss) (auto split: if_splits)

lemma unblock_service_cmds_origin:
  "c \<in> set (unblock_service_cmds cfg n wanted i ss) \<Longrightarrow>
   \<exists>s \<in> set ss. svc_type s \<notin> set (service_whitelist cfg)
      \<and> c \<in> set (unblock_host_cmds n i (hosts s))"
  by (induction ss) (auto split: if_splits)

lemma unblock_host_cmds_concat:
  "unblock_host_cmds n i hs =
   concat (map (\<lambda>h. replicate n (egress_delete i h) @ replicate n (ingress_delete i h)) hs)"
  by (induction hs) simp_all

lemma unblock_service_cmds_concat:
  "unblock_service_cmds cfg n wanted i ss =
   concat (map (\<lambda>h. replicate n (egress_delete i h) @ replicate n (ingress_delete i h))
     (concat (map hosts
        (filter (\<lambda>s. svc_type s \<notin> set (service_whitelist cfg)
                    \<and> \<not> name_filtered wanted (svc_name s)) ss))))"
  by (induction ss) (simp_all add: unblock_host_cmds_concat)

lemma unblock_services_loop_trace:
  "unblock_services_loop orc cfg n self wanted insts tr =
   tr @ concat (map (\<lambda>i. if unblock_service_cmds cfg n wanted i (services self) = [] then []
                         else [DiegoRunCmd (diego_id i)
                                 (CmdList (unblock_service_cmds cfg n wanted i (services self)))
                                 True]) insts)"
  by (induction insts arbitrary: tr) (simp_all add: Let_def)

text \<open>
  C2. Services whose type is in the service whitelist are never targeted: whatever the
  name filter, the direction and the answers of the hosts, \<open>App.block_services\<close> and
  \<open>App.unblock_services\<close> return the same result and send the same batches as on the
  application without its whitelisted services, and every command of a batch (an insert
  of \<open>block_services\<close>, a delete of \<open>unblock_services\<close>) is a command built for a service
  of the application whose type is not whitelisted.
\<close>

theorem whitelisted_services_never_targeted:
  "block_services pd orc cfg n self wanted d tr =
     block_services pd orc cfg n
       (self\<lparr>services := filter (\<lambda>s. svc_type s \<notin> set (service_whitelist cfg)) (services self)\<rparr>)
       wanted d tr
   \<and> unblock_services orc cfg n self wanted tr =
     unblock_services orc cfg n
       (self\<lparr>services := filter (\<lambda>s. svc_type s \<notin> set (service_whitelist cfg)) (services self)\<rparr>)
       wanted tr
   \<and> (\<forall>c \<in> set (block_service_cmds cfg wanted d i (services self)).
        \<exists>s \<in> set (services self). svc_type s \<notin> set (service_whitelist cfg)
           \<and> c \<in> set (block_host_cmds d i (hosts s)))
   \<and> (\<forall>c \<in> set (unblock_service_cmds cfg n wanted i (services self)).
        \<exists>s \<in> set (services self). svc_type s \<notin> set (service_whitelist cfg)
           \<and> c \<in> set (unblock_host_cmds n i (hosts s)))"
proof (intro conjI ballI)
  let ?self' =
    "self\<lparr>services := filter (\<lambda>s. svc_type s \<notin> set (service_whitelist cfg)) (services self)\<rparr>"
  have b: "block_service_cmds cfg wanted dir j (services ?self') =
           block_service_cmds cfg wanted dir j (services self)" for dir j
    by (simp add: block_service_cmds_drop_whitelisted)
  have u: "unblock_service_cmds cfg n wanted j (services ?self') =
           unblock_service_cmds cfg n wanted j (services self)" for j
    by (simp add: unblock_service_cmds_drop_whitelisted)
  have insts: "instances ?self' = instances self" by simp
  have loop: "block_services_loop orc cfg n ?self' wanted dir (instances self) tr =
              block_services_loop orc cfg n self wanted dir (instances self) tr" for dir
    by (rule block_services_loop_cong [OF b u insts])
  show "block_services pd orc cfg n self wanted d tr =
        block_services pd orc cfg n ?self' wanted d tr"
    unfolding block_services_def insts loop ..
  show "unblock_services orc cfg n self wanted tr =
        unblock_services orc cfg n ?self' wanted tr"
    unfolding unblock_services_def insts
    by (rule unblock_services_loop_cong [symmetric]) (rule u)
next
  fix c assume "c \<in> set (block_service_cmds cfg wanted d i (services self))"
  then show "\<exists>s \<in> set (services self). svc_type s \<notin> set (service_whitelist cfg)
           \<and> c \<in> set (block_host_cmds d i (hosts s))"
    by (rule block_service_cmds_origin)
next
  fix c assume "c \<in> set (unblock_service_cmds cfg n wanted i (services self))"
  then show "\<exists>s \<in> set (services self). svc_type s \<notin> set (service_whitelist cfg)
           \<and> c \<in> set (unblock_host_cmds n i (hosts s))"
    by (rule unblock_service_cmds_origin)
qed

theorem whitelisted_services_never_targeted_witness:
  "block_services parse_direction0 batches_fail cfg0 2 shop None ''both'' [] =
     block_services parse_direction0 batches_fail cfg0 2 (shop\<lparr>services := [svc_mysql]\<rparr>)
       None ''both'' []
   \<and> unblock_services batches_fail cfg0 2 shop None [] =
     unblock_services batches_fail cfg0 2 (shop\<lparr>services := [svc_mysql]\<rparr>) None []
   \<and> block_service_cmds cfg0 None ''both'' inst_a [svc_logger, svc_mysql] \<noteq> []
   \<and> set (block_service_cmds cfg0 None ''both'' inst_a [svc_logger, svc_mysql])
       \<subseteq> set (block_host_cmds ''both'' inst_a (hosts svc_mysql))
   \<and> set (unblock_service_cmds cfg0 2 None inst_a [svc_logger, svc_mysql])
       \<subseteq> set (unblock_host_cmds 2 inst_a (hosts svc_mysql))"
proof -
  have f: "filter (\<lambda>s. svc_type s \<notin> set (service_whitelist cfg0)) (services shop) = [svc_mysql]"
    by (simp add: shop_def cfg0_def svc_logger_def svc_mysql_def)
  have s: "services shop = [svc_logger, svc_mysql]" by (simp add: shop_def)
  have t: "svc_type svc_logger \<in> set (service_whitelist cfg0)"
    by (simp add: cfg0_def svc_logger_def)
  note th = whitelisted_services_never_targeted
      [where pd = parse_direction0 and orc = batches_fail and cfg = cfg0 and n = 2
         and self = shop and wanted = None and d = "''both''" and tr = "[]" and i = inst_a,
       unfolded f]
  note th1 = th [THEN conjunct1]
  note th2 = th [THEN conjunct2, THEN conjunct1]
  note th3 = th [THEN conjunct2, THEN conjunct2, THEN conjunct1, unfolded s]
  note th4 = th [THEN conjunct2, THEN conjunct2, THEN conjunct2, unfolded s]
  have ne: "block_service_cmds cfg0 None ''both'' inst_a [svc_logger, svc_mysql] \<noteq> []"
    by (simp add: cfg0_def svc_logger_def svc_mysql_def name_filtered_def)
  have c3: "set (block_service_cmds cfg0 None ''both'' inst_a [svc_logger, svc_mysql])
       \<subseteq> set (block_host_cmds ''both'' inst_a (hosts svc_mysql))"
    using th3 t by fastforce
  have c4: "set (unblock_service_cmds cfg0 2 None inst_a [svc_logger, svc_mysql])
       \<subseteq> set (unblock_host_cmds 2 inst_a (hosts svc_mysql))"
    using th4 t by fastforce
  show ?thesis using th1 th2 ne c3 c4 by blast
qed

text \<open>
  C4. For an instance \<open>i\<close>, the batch of \<open>App.unblock_services\<close> is made, endpoint by
  endpoint over the services that pass the type whitelist and the name filter, of
  \<open>TIMES_TO_REMOVE\<close> copies of the egress delete command followed by \<open>TIMES_TO_REMOVE\<close>
  copies of the ingress delete command (\<open>--dport\<close> and \<open>--sport\<close> for a numbered port).
  Whatever the remote batches return, \<open>App.unblock_services\<close> sends one batch to every
  instance whose batch is not empty, in order, and hands no return code back.
\<close>

theorem unblock_services_repeats_each_delete:
  "unblock_service_cmds cfg n wanted i (services self) =
     concat (map (\<lambda>h. replicate n (egress_delete i h) @ replicate n (ingress_delete i h))
       (concat (map hosts
          (filter (\<lambda>s. svc_type s \<notin> set (service_whitelist cfg)
                      \<and> \<not> name_filtered wanted (svc_name s)) (services self)))))
   \<and> egress_delete i (sip, protocol, PInt port) =
       join '' '' [''sudo'', ''iptables'', ''-D'', ''FORWARD'', ''-s'', cont_ip i, ''-d'', sip,
                   ''-p'', protocol, ''--dport'', str_int port, ''-j'', ''DROP'']
   \<and> ingress_delete i (sip, protocol, PInt port) =
       join '' '' [''sudo'', ''iptables'', ''-D'', ''FORWARD'', ''-d'', cont_ip i, ''-s'', sip,
                   ''-p'', protocol, ''--sport'', str_int port, ''-j'', ''DROP'']
   \<and> unblock_services orc cfg n self wanted tr =
       tr @ concat (map (\<lambda>j. if unblock_service_cmds cfg n wanted j (services self) = [] then []
                             else [DiegoRunCmd (diego_id j)
                                     (CmdList (unblock_service_cmds cfg n wanted j (services self)))
                                     True])
                      (instances self))"
proof (intro conjI)
  show "unblock_service_cmds cfg n wanted i (services self) =
     concat (map (\<lambda>h. replicate n (egress_delete i h) @ replicate n (ingress_delete i h))
       (concat (map hosts
          (filter (\<lambda>s. svc_type s \<notin> set (service_whitelist cfg)
                      \<and> \<not> name_filtered wanted (svc_name s)) (services self)))))"
    by (rule unblock_service_cmds_concat)
  show "egress_delete i (sip, protocol, PInt port) =
       join '' '' [''sudo'', ''iptables'', ''-D'', ''FORWARD'', ''-s'', cont_ip i, ''-d'', sip,
                   ''-p'', protocol, ''--dport'', str_int port, ''-j'', ''DROP'']"
    unfolding egress_delete_def py_str_def by simp
  show "ingress_delete i (sip, protocol, PInt port) =
       join '' '' [''sudo'', ''iptables'', ''-D'', ''FORWARD'', ''-d'', cont_ip i, ''-s'', sip,
                   ''-p'', protocol, ''--sport'', str_int port, ''-j'', ''DROP'']"
    unfolding ingress_delete_def py_str_def by simp
  show "unblock_services orc cfg n self wanted tr =
       tr @ concat (map (\<lambda>j. if unblock_service_cmds cfg n wanted j (services self) = [] then []
                             else [DiegoRunCmd (diego_id j)
                                     (CmdList (unblock_service_cmds cfg n wanted j (services self)))
                                     True])
                      (instances self))"
    unfolding unblock_services_def by (rule unblock_services_loop_trace)
qed

theorem unblock_services_repeats_each_delete_witness:
  "unblock_service_cmds cfg0 2 None inst_a (services shop) =
     [egress_delete inst_a (''10.0.9.9'', ''tcp'', PInt 3306),
      egress_delete inst_a (''10.0.9.9'', ''tcp'', PInt 3306),
      ingress_delete inst_a (''10.0.9.9'', ''tcp'', PInt 3306),
      ingress_delete inst_a (''10.0.9.9'', ''tcp'', PInt 3306)]
   \<and> unblock_services batches_fail cfg0 2 shop None [] =
     [DiegoRunCmd ''diego_cell/a''
        (CmdList (unblock_service_cmds cfg0 2 None inst_a (services shop))) True,
      DiegoRunCmd ''diego_cell/b''
        (CmdList (unblock_service_cmds cfg0 2 None inst_b (services shop))) True]"
proof -
  have k: "filter (\<lambda>s. svc_type s \<notin> set (service_whitelist cfg0)
                      \<and> \<not> name_filtered None (svc_name s)) (services shop) = [svc_mysql]"
    by (simp add: shop_def cfg0_def svc_logger_def svc_mysql_def name_filtered_def)
  have h: "hosts svc_mysql = [(''10.0.9.9'', ''tcp'', PInt 3306)]"
    by (simp add: svc_mysql_def)
  have two: "replicate 2 x = [x, x]" for x :: string
    by (simp add: numeral_2_eq_2)
  note th = unblock_services_repeats_each_delete
      [where cfg = cfg0 and n = 2 and wanted = None and self = shop
         and orc = batches_fail and tr = "[]"]
  have a: "unblock_service_cmds cfg0 2 None i (services shop) =
     [egress_delete i (''10.0.9.9'', ''tcp'', PInt 3306),
      egress_delete i (''10.0.9.9'', ''tcp'', PInt 3306),
      ingress_delete i (''10.0.9.9'', ''tcp'', PInt 3306),
      ingress_delete i (''10.0.9.9'', ''tcp'', PInt 3306)]" for i
    using th [where i = i, THEN conjunct1, unfolded k]
    by (simp only: h two list.map concat.simps append.simps)
  have ne: "unblock_service_cmds cfg0 2 None i (services shop) \<noteq> []" for i
    unfolding a by simp
  have il: "instances shop = [inst_a, inst_b]" by (simp add: shop_def)
  have ids: "diego_id inst_a = ''diego_cell/a''" "diego_id inst_b = ''diego_cell/b''"
    by (simp_all add: inst_a_def inst_b_def)
  have b: "unblock_services batches_fail cfg0 2 shop None [] =
     [DiegoRunCmd ''diego_cell/a''
        (CmdList (unblock_service_cmds cfg0 2 None inst_a (services shop))) True,
      DiegoRunCmd ''diego_cell/b''
        (CmdList (unblock_service_cmds cfg0 2 None inst_b (services shop))) True]"
    using th [where i = inst_a, THEN conjunct2, THEN conjunct2, THEN conjunct2] ne
    by (simp only: il ids list.map concat.simps append.simps if_False)
  show ?thesis using a [of inst_a] b by (rule conjI)
qed

section \<open>Properties of instance resolution\<close>

lemma app_ports_loop_mem:
  "(h, c) \<in> app_ports_loop cfg pms found \<longleftrightarrow>
     (h, c) \<in> found \<or>
     ((\<exists>p \<in> set pms. (h = host_port p \<and> c = container_port p)
                   \<or> (host_tls_proxy_port p = Some h \<and> container_tls_proxy_port p = Some c))
      \<and> h \<notin> set (host_port_whitelist cfg) \<and> c \<notin> set (container_port_whitelist cfg))"
proof (induction pms arbitrary: found)
  case Nil
  show ?case by simp
next
  case (Cons p pms)
  show ?case
    unfolding app_ports_loop.simps Let_def Cons.IH
    by (auto split: option.splits)
qed

lemma resolve_instance_app_ports:
  "resolve_instance pf orc cfg raw tr = (Returned ai, tr') \<Longrightarrow>
   app_ports ai = app_ports_loop cfg (raw_ports raw) {}"
  unfolding resolve_instance_def Let_def
  by (auto split: outcome.splits if_splits)

text \<open>
  C3. A pair \<open>(h, c)\<close> is in the port set computed from the reported port mappings if
  and only if it is the (host port, container port) pair of a mapping, or the TLS proxy
  pair of a mapping that reports both TLS proxy ports, and \<open>h\<close> is not in the host port
  whitelist and \<open>c\<close> is not in the container port whitelist. This set is the \<open>app_ports\<close>
  of the instance that resolution returns.
\<close>

theorem app_ports_whitelist_exclusion:
  "((h, c) \<in> app_ports_loop cfg pms {} \<longleftrightarrow>
      (\<exists>p \<in> set pms. (h = host_port p \<and> c = container_port p)
                   \<or> (host_tls_proxy_port p = Some h \<and> container_tls_proxy_port p = Some c))
      \<and> h \<notin> set (host_port_whitelist cfg) \<and> c \<notin> set (container_port_whitelist cfg))
   \<and> (resolve_instance pf orc cfg raw tr = (Returned ai, tr')
        \<longrightarrow> app_ports ai = app_ports_loop cfg (raw_ports raw) {})"
  using app_ports_loop_mem [of h c cfg pms "{}"]
        resolve_instance_app_ports [of pf orc cfg raw tr ai tr']
  by simp

theorem app_ports_whitelist_exclusion_witness:
  "(6100, 8080) \<in> app_ports_loop cfg0 (raw_ports raw1) {}
   \<and> (6101, 61001) \<in> app_ports_loop cfg0 (raw_ports raw1) {}
   \<and> (22, 8080) \<notin> app_ports_loop cfg0 (raw_ports raw1) {}
   \<and> (6200, 2222) \<notin> app_ports_loop cfg0 (raw_ports raw1) {}
   \<and> (6201, 2222) \<notin> app_ports_loop cfg0 (raw_ports raw1) {}
   \<and> fst (resolve_instance pf0 batches_fail cfg0 raw1 []) = Returned ai1
   \<and> app_ports ai1 = app_ports_loop cfg0 (raw_ports raw1) {}"
proof -
  note th = app_ports_whitelist_exclusion [where cfg = cfg0 and pms = "raw_ports raw1"]
  have e: "resolve_instance pf0 batches_fail cfg0 raw1 [] =
     (Returned ai1,
      [DiegoRunCmd ''diego_cell/a'' (CmdStr ''ip a'') False,
       DiegoRunCmd ''diego_cell/a''
         (CmdStr ''sudo cat /var/vcap/sys/log/rep/rep.stdout.log | grep 10.255.0.5 | tail -n 1'')
         False])"
    by (simp add: resolve_instance_def lookup_interface_def pf0_def batches_fail_def Let_def
          raw1_def cfg0_def ai1_def insert_commute)
  have p: "app_ports ai1 = app_ports_loop cfg0 (raw_ports raw1) {}"
    using app_ports_whitelist_exclusion [where cfg = cfg0 and pf = pf0 and orc = batches_fail
      and raw = raw1 and tr = "[]" and ai = ai1, THEN conjunct2] e by blast
  show ?thesis
    using th [where h = 6100 and c = 8080, THEN conjunct1]
          th [where h = 6101 and c = 61001, THEN conjunct1]
          th [where h = 22 and c = 8080, THEN conjunct1]
          th [where h = 6200 and c = 2222, THEN conjunct1]
          th [where h = 6201 and c = 2222, THEN conjunct1] p e
    by (simp add: raw1_def cfg0_def)
qed

section \<open>Properties of GUID resolution\<close>

lemma find_application_guid_no_return_on_failure:
  "fst (orc tr (RunCmd (cf_cmd cfg @ '' app '' @ appname @ '' --guid''))) \<noteq> 0 \<Longrightarrow>
   fst (find_application_guid orc cfg appname tr) \<noteq> Returned g"
  unfolding find_application_guid_def Let_def
  by (auto split: list.splits)

lemma find_application_guid_exit_on_failure:
  "appname \<noteq> [] \<Longrightarrow>
   fst (orc tr (RunCmd (cf_cmd cfg @ '' app '' @ appname @ '' --guid''))) \<noteq> 0 \<Longrightarrow>
   splitlines (snd (orc tr (RunCmd (cf_cmd cfg @ '' app '' @ appname @ '' --guid'')))) \<noteq> [] \<Longrightarrow>
   fst (find_application_guid orc cfg appname tr) =
     Exited (''Failed retrieving the GUID for the specified app. Make sure ''
             @ appname @ '' is in this space!'')"
  unfolding find_application_guid_def Let_def
  by (auto split: list.splits)

text \<open>
  C5. When the describe-app invocation fails with code 1 and prints nothing,
  \<open>find_application_guid\<close> does not reach \<open>sys.exit\<close>: taking the first line of the empty
  output raises \<open>IndexError\<close>, before the return code is looked at.
\<close>

theorem find_application_guid_empty_output_raises:
  "fst (cf_fails_silently [] (RunCmd ''cf app billing --guid'')) = 1
   \<and> find_application_guid cf_fails_silently cfg0 ''billing'' [] =
       (Raised IndexError, [RunCmd ''cf app billing --guid''])"
  by (simp add: find_application_guid_def cf_fails_silently_def cfg0_def splitlines_def Let_def)

theorem find_application_guid_empty_output_raises_witness:
  "fst (find_application_guid cf_fails_silently cfg0 ''billing'' []) = Raised IndexError"
  using find_application_guid_empty_output_raises by simp

section \<open>Properties of process lifecycle control\<close>

lemma kill_monit_process_no_pid_files:
  "instances self = i # rest \<Longrightarrow>
   pid_files_of (snd (orc tr (InstRunCmd i
      (CmdStr (''find /var/vcap/sys/run | grep '' @ process @ '' | grep --color=never pid''))))) = []
   \<Longrightarrow>
   kill_monit_process orc self process tr =
     (Some (fst (orc tr (InstRunCmd i
        (CmdStr (''find /var/vcap/sys/run | grep '' @ process @ '' | grep --color=never pid''))))),
      tr @ [InstRunCmd i
        (CmdStr (''find /var/vcap/sys/run | grep '' @ process @ '' | grep --color=never pid''))])"
  by (simp add: kill_monit_process_def Let_def)

text \<open>
  C6. When the search on the first instance returns code 0 and its output holds no PID
  file, \<open>App.kill_monit_process\<close> stops after the search, without the unmonitor and kill
  commands, and returns that code 0.
\<close>

theorem kill_monit_process_no_pid_files_returns_zero:
  "pid_files_of (snd (all_ok [] (InstRunCmd inst_a
      (CmdStr ''find /var/vcap/sys/run | grep rep | grep --color=never pid'')))) = []
   \<and> kill_monit_process all_ok billing ''rep'' [] =
     (Some 0, [InstRunCmd inst_a
                 (CmdStr ''find /var/vcap/sys/run | grep rep | grep --color=never pid'')])"
  by (simp add: kill_monit_process_def all_ok_def billing_def pid_files_of_def splitlines_def
        Let_def)

theorem kill_monit_process_no_pid_files_returns_zero_witness:
  "fst (kill_monit_process all_ok billing ''rep'' []) = Some 0
   \<and> length (snd (kill_monit_process all_ok billing ''rep'' [])) = 1"
  using kill_monit_process_no_pid_files_returns_zero by simp

section \<open>Properties of network shaping\<close>

text \<open>
  C8. With both limits absent, \<open>App.shape_network\<close> returns 0 and leaves the trace of
  calls as it found it: no instance is shaped and nothing is rolled back.
\<close>

theorem shape_network_noop:
  "shape_network orc self None None tr = (0, tr)"
  by (simp add: shape_network_def truthy_limit_def)

theorem shape_network_noop_witness:
  "shape_network b_fails billing None None [InstBlock inst_a ''ingress'' (PortsName ''env'')] =
     (0, [InstBlock inst_a ''ingress'' (PortsName ''env'')])"
  using shape_network_noop [of b_fails billing "[InstBlock inst_a ''ingress'' (PortsName ''env'')]"]
  by simp

section \<open>Properties of service resolution\<close>

lemma same_dict_keys:
  "same_dict a b \<Longrightarrow> set (map fst a) = set (map fst b)"
  unfolding same_dict_def by (auto simp: json_eq.simps)

lemma same_dict_keyed:
  "same_dict a b \<Longrightarrow> (k \<in> fst ` set a) = (k \<in> fst ` set b)"
  using same_dict_keys [of a b] by simp

lemma remove_first_plain_after_keyed:
  "(\<And>p. p \<in> set pre \<Longrightarrow> k \<in> fst ` set p) \<Longrightarrow> k \<notin> fst ` set x \<Longrightarrow>
   remove_first x (pre @ x # rest) = pre @ rest"
proof (induction pre)
  case Nil
  show ?case by (simp add: same_dict_def)
next
  case (Cons p pre)
  have "k \<in> fst ` set p" using Cons.prems(1) by simp
  with Cons.prems(2) have "\<not> same_dict p x" using same_dict_keyed [of p x k] by blast
  with Cons show ?case by simp
qed

lemma remove_pass_no_adjacent_plain:
  "(\<And>p. p \<in> set pre \<Longrightarrow> ''VCAP_SERVICES'' \<in> fst ` set p) \<Longrightarrow>
   (\<And>k. Suc k < length suf \<Longrightarrow>
      ''VCAP_SERVICES'' \<in> fst ` set (suf ! k) \<or> ''VCAP_SERVICES'' \<in> fst ` set (suf ! Suc k)) \<Longrightarrow>
   remove_pass (length pre) (pre @ suf) =
     pre @ filter (\<lambda>obj. ''VCAP_SERVICES'' \<in> fst ` set obj) suf"
proof (induction suf arbitrary: pre rule: induct_list012)
  case 1
  show ?case by (simp add: remove_pass.simps)
next
  case (2 x)
  show ?case
  proof (cases "''VCAP_SERVICES'' \<in> fst ` set x")
    case True
    then show ?thesis
      by (subst remove_pass.simps, simp, subst remove_pass.simps, simp)
  next
    case False
    with 2 have "remove_first x (pre @ [x]) = pre"
      using remove_first_plain_after_keyed [of pre "''VCAP_SERVICES''" x "[]"] by simp
    with False show ?thesis
      by (subst remove_pass.simps, simp, subst remove_pass.simps, simp)
  qed
next
  case (3 x y zs)
  have tail: "Suc k < length (y # zs) \<Longrightarrow>
      ''VCAP_SERVICES'' \<in> fst ` set ((y # zs) ! k)
      \<or> ''VCAP_SERVICES'' \<in> fst ` set ((y # zs) ! Suc k)" for k
    using "3.prems"(2) [of "Suc k"] by simp
  have tail2: "Suc k < length zs \<Longrightarrow>
      ''VCAP_SERVICES'' \<in> fst ` set (zs ! k) \<or> ''VCAP_SERVICES'' \<in> fst ` set (zs ! Suc k)" for k
    using "3.prems"(2) [of "Suc (Suc k)"] by simp
  show ?case
  proof (cases "''VCAP_SERVICES'' \<in> fst ` set x")
    case True
    have pre': "p \<in> set (pre @ [x]) \<Longrightarrow> ''VCAP_SERVICES'' \<in> fst ` set p" for p
      using "3.prems"(1) True by auto
    have "remove_pass (length (pre @ [x])) ((pre @ [x]) @ y # zs) =
            (pre @ [x]) @ filter (\<lambda>obj. ''VCAP_SERVICES'' \<in> fst ` set obj) (y # zs)"
      by (rule "3.IH"(2) [OF pre' tail])
    with True show ?thesis
      by (subst remove_pass.simps) simp
  next
    case False
    with "3.prems"(2) [of 0] have y: "''VCAP_SERVICES'' \<in> fst ` set y" by simp
    have rm: "remove_first x (pre @ x # y # zs) = pre @ y # zs"
      using remove_first_plain_after_keyed [of pre "''VCAP_SERVICES''" x "y # zs"]
            "3.prems"(1) False by blast
    have pre': "p \<in> set (pre @ [y]) \<Longrightarrow> ''VCAP_SERVICES'' \<in> fst ` set p" for p
      using "3.prems"(1) y by auto
    have "remove_pass (length (pre @ [y])) ((pre @ [y]) @ zs) =
            (pre @ [y]) @ filter (\<lambda>obj. ''VCAP_SERVICES'' \<in> fst ` set obj) zs"
      by (rule "3.IH"(1) [OF pre' tail2])
    with False y rm show ?thesis
      by (subst remove_pass.simps) simp
  qed
qed

lemma remove_pass_discards_plain:
  "(\<And>k. Suc k < length objs \<Longrightarrow>
      ''VCAP_SERVICES'' \<in> fst ` set (objs ! k) \<or> ''VCAP_SERVICES'' \<in> fst ` set (objs ! Suc k)) \<Longrightarrow>
   remove_pass 0 objs = filter (\<lambda>obj. ''VCAP_SERVICES'' \<in> fst ` set obj) objs"
  using remove_pass_no_adjacent_plain [of "[]" objs] by simp


lemma remove_first_keeps_rest:
  "\<exists>pre'. remove_first x (pre @ x # rest) = pre' @ rest \<and> length pre' = length pre"
proof (induction pre)
  case Nil
  show ?case by (simp add: same_dict_def)
next
  case (Cons p pre)
  then obtain pre' where r: "remove_first x (pre @ x # rest) = pre' @ rest"
    and l: "length pre' = length pre" by blast
  show ?case
  proof (cases "same_dict p x")
    case True
    have "remove_first x ((p # pre) @ x # rest) = (pre @ [x]) @ rest" using True by simp
    then show ?thesis by (intro exI [of _ "pre @ [x]"]) simp
  next
    case False
    have "remove_first x ((p # pre) @ x # rest) = (p # pre') @ rest" using False r by simp
    then show ?thesis using l by (intro exI [of _ "p # pre'"]) simp
  qed
qed

lemma remove_pass_end:
  "length objs \<le> i \<Longrightarrow> remove_pass i objs = objs"
  by (subst remove_pass.simps) simp

lemma remove_pass_leaves_skipped:
  "length pre + length (filter (\<lambda>obj. ''VCAP_SERVICES'' \<in> fst ` set obj) suf)
     \<le> length (remove_pass (length pre) (pre @ suf))
   \<and> ((\<exists>k. Suc k < length suf \<and> ''VCAP_SERVICES'' \<notin> fst ` set (suf ! k)
            \<and> ''VCAP_SERVICES'' \<notin> fst ` set (suf ! Suc k))
      \<longrightarrow> length pre + length (filter (\<lambda>obj. ''VCAP_SERVICES'' \<in> fst ` set obj) suf)
            < length (remove_pass (length pre) (pre @ suf)))"
proof (induction suf arbitrary: pre rule: induct_list012)
  case 1
  show ?case by (simp add: remove_pass.simps)
next
  case (2 x)
  obtain pre' where r: "remove_first x (pre @ [x]) = pre'" and l: "length pre' = length pre"
    using remove_first_keeps_rest [of x pre "[]"] by auto
  show ?case
  proof (cases "''VCAP_SERVICES'' \<in> fst ` set x")
    case True
    then have "remove_pass (length pre) (pre @ [x]) = pre @ [x]"
      by (subst remove_pass.simps) (simp add: remove_pass_end)
    with True show ?thesis by simp
  next
    case False
    then have "remove_pass (length pre) (pre @ [x]) = pre'"
      using r l by (subst remove_pass.simps) (simp add: remove_pass_end)
    with False l show ?thesis by simp
  qed
next
  case (3 x y zs)
  let ?K = "\<lambda>obj. ''VCAP_SERVICES'' \<in> fst ` set obj"
  let ?adj = "\<lambda>l. \<exists>k. Suc k < length l \<and> \<not> ?K (l ! k) \<and> \<not> ?K (l ! Suc k)"
  have adj_cons: "?adj (a # b # l) \<longleftrightarrow> (\<not> ?K a \<and> \<not> ?K b) \<or> ?adj (b # l)" for a b l
  proof
    assume "?adj (a # b # l)"
    then obtain k where k: "Suc k < length (a # b # l)" "\<not> ?K ((a # b # l) ! k)"
      "\<not> ?K ((a # b # l) ! Suc k)" by blast
    show "(\<not> ?K a \<and> \<not> ?K b) \<or> ?adj (b # l)"
    proof (cases k)
      case 0
      with k show ?thesis by simp
    next
      case (Suc m)
      with k have "Suc m < length (b # l) \<and> \<not> ?K ((b # l) ! m) \<and> \<not> ?K ((b # l) ! Suc m)"
        by simp
      then show ?thesis by blast
    qed
  next
    assume "(\<not> ?K a \<and> \<not> ?K b) \<or> ?adj (b # l)"
    then show "?adj (a # b # l)"
    proof
      assume "\<not> ?K a \<and> \<not> ?K b"
      then show ?thesis by (intro exI [of _ 0]) simp
    next
      assume "?adj (b # l)"
      then obtain m where "Suc m < length (b # l)" "\<not> ?K ((b # l) ! m)" "\<not> ?K ((b # l) ! Suc m)"
        by blast
      then show ?thesis by (intro exI [of _ "Suc m"]) simp
    qed
  qed
  have adj_y: "?adj (y # zs) \<Longrightarrow> \<not> ?K y \<or> ?adj zs"
  proof (cases zs)
    case Nil
    assume "?adj (y # zs)"
    with Nil show ?thesis by simp
  next
    case (Cons z zs')
    assume "?adj (y # zs)"
    with Cons adj_cons [of y z zs'] show ?thesis by blast
  qed
  show ?case
  proof (cases "?K x")
    case True
    have step: "remove_pass (length pre) (pre @ x # y # zs) =
                remove_pass (length (pre @ [x])) ((pre @ [x]) @ y # zs)"
      using True by (subst remove_pass.simps) simp
    have a: "?adj (x # y # zs) \<Longrightarrow> ?adj (y # zs)" using adj_cons [of x y zs] True by blast
    show ?thesis
      unfolding step using "3.IH"(2) [of "pre @ [x]"] True a by auto
  next
    case False
    obtain pre' where r: "remove_first x (pre @ x # y # zs) = pre' @ y # zs"
      and l: "length pre' = length pre"
      using remove_first_keeps_rest [of x pre "y # zs"] by blast
    have step: "remove_pass (length pre) (pre @ x # y # zs) =
                remove_pass (length (pre' @ [y])) ((pre' @ [y]) @ zs)"
      using False r l by (subst remove_pass.simps) simp
    have a: "?adj (x # y # zs) \<Longrightarrow> \<not> ?K y \<or> ?adj zs"
      using adj_cons [of x y zs] adj_y by blast
    show ?thesis
      unfolding step using "3.IH"(1) [of "pre' @ [y]"] False l a by auto
  qed
qed

lemma remove_pass_misses_adjacent_plain:
  "Suc k < length objs \<Longrightarrow> ''VCAP_SERVICES'' \<notin> fst ` set (objs ! k) \<Longrightarrow>
   ''VCAP_SERVICES'' \<notin> fst ` set (objs ! Suc k) \<Longrightarrow>
   length (filter (\<lambda>obj. ''VCAP_SERVICES'' \<in> fst ` set obj) objs) < length (remove_pass 0 objs)"
  using remove_pass_leaves_skipped [of "[]" objs] by auto

lemma filter_remove_first_other:
  "k \<notin> fst ` set x \<Longrightarrow>
   filter (\<lambda>obj. k \<in> fst ` set obj) (remove_first x xs) = filter (\<lambda>obj. k \<in> fst ` set obj) xs"
proof (induction xs)
  case Nil
  show ?case by simp
next
  case (Cons y ys)
  show ?case
  proof (cases "same_dict y x")
    case True
    with Cons.prems have "k \<notin> fst ` set y" using same_dict_keyed [of y x k] by blast
    with True show ?thesis by simp
  next
    case False
    with Cons show ?thesis by simp
  qed
qed

lemma remove_pass_keeps_keyed:
  "filter (\<lambda>obj. ''VCAP_SERVICES'' \<in> fst ` set obj) (remove_pass i objs) =
   filter (\<lambda>obj. ''VCAP_SERVICES'' \<in> fst ` set obj) objs"
proof (induction i objs rule: remove_pass.induct)
  case (1 i objs)
  show ?case
  proof (cases "i < length objs")
    case False
    then show ?thesis by (simp add: remove_pass.simps)
  next
    case True
    show ?thesis
    proof (cases "''VCAP_SERVICES'' \<notin> fst ` set (objs ! i)")
      case True
      with \<open>i < length objs\<close> "1.IH"(1) show ?thesis
        by (subst remove_pass.simps) (simp add: filter_remove_first_other)
    next
      case False
      with \<open>i < length objs\<close> "1.IH"(2) show ?thesis
        by (subst remove_pass.simps) simp
    qed
  qed
qed

text \<open>Two objects without the key, one after the other: the walk drops the first and
  steps over the second, which is then taken for the object with the services.\<close>

lemma find_application_services_two_plain_objects:
  "remove_pass 0 (extract_json pf_two_plain []) = [[(''LIMITS'', JObj [(''mem'', JInt 512)])]]
   \<and> find_application_services pf_two_plain all_ok cfg0 ''billing'' [] =
       (Raised (KeyError ''VCAP_SERVICES''), [RunCmd ''cf env billing''])"
  by (simp add: find_application_services_def pf_two_plain_def pf0_def all_ok_def cfg0_def
        Let_def remove_pass.simps same_dict_def)

text \<open>The same after the object with the services: two objects are left, and the bound
  service is not reported.\<close>

lemma find_application_services_bound_service_lost:
  "length (remove_pass 0 (extract_json pf_bound_two_plain [])) = 2
   \<and> find_application_services pf_bound_two_plain all_ok cfg0 ''billing'' [] =
       (Returned [], [RunCmd ''cf env billing''])"
  by (simp add: find_application_services_def pf_bound_two_plain_def pf0_def all_ok_def cfg0_def
        Let_def remove_pass.simps same_dict_def)

text \<open>
  C7, as stated, fails: the environment query exits with 0 and its output holds no JSON
  object at all, so no object with a services key remains, and service resolution ends
  the process instead of returning an empty list.
\<close>

theorem find_application_services_no_json_exits:
  "fst (all_ok [] (RunCmd ''cf env billing'')) = 0
   \<and> extract_json pf0 (snd (all_ok [] (RunCmd ''cf env billing''))) = []
   \<and> find_application_services pf0 all_ok cfg0 ''billing'' [] =
       (Exited ''Error reading output from `cf env`'', [RunCmd ''cf env billing''])"
  by (simp add: find_application_services_def all_ok_def pf0_def cfg0_def Let_def)

text \<open>
  C7, amended. A non-zero exit from the environment query ends the process, and so does
  an output in which no JSON object at all is found. An object that has the services
  key is never discarded. When no object lacking the services key comes right after
  another object lacking it, service resolution discards every object lacking the key:
  what is left is the objects with the key, in their order. Then, when zero objects
  with the key remain, it returns the empty service list, as it does when more than one
  remains; when exactly one remains, the services are built from that object.
\<close>

theorem service_resolution_discards_plain_objects:
  "(let cmd = RunCmd (cf_cmd cfg @ '' env '' @ appname);
        rcode = fst (orc tr cmd);
        objs = extract_json pf (snd (orc tr cmd));
        kept = filter (\<lambda>obj. ''VCAP_SERVICES'' \<in> fst ` set obj) objs;
        spaced = (\<forall>k. Suc k < length objs \<longrightarrow>
                    ''VCAP_SERVICES'' \<in> fst ` set (objs ! k)
                    \<or> ''VCAP_SERVICES'' \<in> fst ` set (objs ! Suc k))
    in (rcode \<noteq> 0 \<longrightarrow>
          find_application_services pf orc cfg appname tr =
            (Exited ''Failed to query application environment variables.'', tr @ [cmd]))
     \<and> (rcode = 0 \<and> objs = [] \<longrightarrow>
          find_application_services pf orc cfg appname tr =
            (Exited ''Error reading output from `cf env`'', tr @ [cmd]))
     \<and> filter (\<lambda>obj. ''VCAP_SERVICES'' \<in> fst ` set obj) (remove_pass 0 objs) = kept
     \<and> (spaced \<longrightarrow> remove_pass 0 objs = kept)
     \<and> (rcode = 0 \<and> objs \<noteq> [] \<and> spaced \<and> kept = [] \<longrightarrow>
          find_application_services pf orc cfg appname tr = (Returned [], tr @ [cmd]))
     \<and> (rcode = 0 \<and> spaced \<and> 1 < length kept \<longrightarrow>
          find_application_services pf orc cfg appname tr = (Returned [], tr @ [cmd]))
     \<and> (rcode = 0 \<and> spaced \<and> kept = [obj] \<longrightarrow>
          find_application_services pf orc cfg appname tr =
            (case map_of obj ''VCAP_SERVICES'' of
               None \<Rightarrow> (Raised (KeyError ''VCAP_SERVICES''), tr @ [cmd])
             | Some (JObj vservices) \<Rightarrow> (services_loop pf vservices [], tr @ [cmd])
             | Some other \<Rightarrow> (Raised AttributeError, tr @ [cmd]))))"
proof -
  define cmd where "cmd = RunCmd (cf_cmd cfg @ '' env '' @ appname)"
  define rcode where "rcode = fst (orc tr cmd)"
  define objs where "objs = extract_json pf (snd (orc tr cmd))"
  define kept where "kept = filter (\<lambda>obj. ''VCAP_SERVICES'' \<in> fst ` set obj) objs"
  define spaced where "spaced \<longleftrightarrow> (\<forall>k. Suc k < length objs \<longrightarrow>
                    ''VCAP_SERVICES'' \<in> fst ` set (objs ! k)
                    \<or> ''VCAP_SERVICES'' \<in> fst ` set (objs ! Suc k))"
  have unfold: "find_application_services pf orc cfg appname tr =
     (if rcode \<noteq> 0
        then (Exited ''Failed to query application environment variables.'', tr @ [cmd])
      else if objs = []
        then (Exited ''Error reading output from `cf env`'', tr @ [cmd])
      else if length (remove_pass 0 objs) \<noteq> 1 then (Returned [], tr @ [cmd])
      else (case map_of (hd (remove_pass 0 objs)) ''VCAP_SERVICES'' of
              None \<Rightarrow> (Raised (KeyError ''VCAP_SERVICES''), tr @ [cmd])
            | Some (JObj vservices) \<Rightarrow> (services_loop pf vservices [], tr @ [cmd])
            | Some other \<Rightarrow> (Raised AttributeError, tr @ [cmd])))"
    unfolding find_application_services_def Let_def rcode_def objs_def cmd_def by simp
  have keep: "filter (\<lambda>obj. ''VCAP_SERVICES'' \<in> fst ` set obj) (remove_pass 0 objs) = kept"
    unfolding kept_def by (rule remove_pass_keeps_keyed)
  have pass: "remove_pass 0 objs = kept" if spaced
    unfolding kept_def using that unfolding spaced_def
    by (intro remove_pass_discards_plain) blast
  have c1: "rcode \<noteq> 0 \<longrightarrow>
          find_application_services pf orc cfg appname tr =
            (Exited ''Failed to query application environment variables.'', tr @ [cmd])"
    unfolding unfold by simp
  have c2: "rcode = 0 \<and> objs = [] \<longrightarrow>
          find_application_services pf orc cfg appname tr =
            (Exited ''Error reading output from `cf env`'', tr @ [cmd])"
    unfolding unfold by simp
  have c4: "rcode = 0 \<and> objs \<noteq> [] \<and> spaced \<and> kept = [] \<longrightarrow>
          find_application_services pf orc cfg appname tr = (Returned [], tr @ [cmd])"
    unfolding unfold using pass by simp
  have c5: "rcode = 0 \<and> spaced \<and> 1 < length kept \<longrightarrow>
          find_application_services pf orc cfg appname tr = (Returned [], tr @ [cmd])"
  proof
    assume a: "rcode = 0 \<and> spaced \<and> 1 < length kept"
    then have "remove_pass 0 objs = kept" using pass by blast
    moreover from a have "objs \<noteq> []" unfolding kept_def by auto
    ultimately show "find_application_services pf orc cfg appname tr = (Returned [], tr @ [cmd])"
      unfolding unfold using a by simp
  qed
  have c6: "rcode = 0 \<and> spaced \<and> kept = [obj] \<longrightarrow>
          find_application_services pf orc cfg appname tr =
            (case map_of obj ''VCAP_SERVICES'' of
               None \<Rightarrow> (Raised (KeyError ''VCAP_SERVICES''), tr @ [cmd])
             | Some (JObj vservices) \<Rightarrow> (services_loop pf vservices [], tr @ [cmd])
             | Some other \<Rightarrow> (Raised AttributeError, tr @ [cmd]))"
  proof
    assume a: "rcode = 0 \<and> spaced \<and> kept = [obj]"
    then have "remove_pass 0 objs = [obj]" using pass by simp
    moreover from a have "objs \<noteq> []" unfolding kept_def by auto
    ultimately show "find_application_services pf orc cfg appname tr =
            (case map_of obj ''VCAP_SERVICES'' of
               None \<Rightarrow> (Raised (KeyError ''VCAP_SERVICES''), tr @ [cmd])
             | Some (JObj vservices) \<Rightarrow> (services_loop pf vservices [], tr @ [cmd])
             | Some other \<Rightarrow> (Raised AttributeError, tr @ [cmd]))"
      unfolding unfold using a by simp
  qed
  show ?thesis
    unfolding Let_def
    using c1 c2 keep pass c4 c5 c6
    unfolding cmd_def rcode_def objs_def kept_def spaced_def
    by blast
qed

theorem service_resolution_discards_plain_objects_witness:
  "find_application_services pf_two_plain cf_fails_silently cfg0 ''billing'' [] =
     (Exited ''Failed to query application environment variables.'',
      [RunCmd ''cf env billing''])
   \<and> find_application_services pf0 all_ok cfg0 ''billing'' [RunCmd ''cf target''] =
     (Exited ''Error reading output from `cf env`'',
      [RunCmd ''cf target'', RunCmd ''cf env billing''])
   \<and> remove_pass 0 (extract_json pf_bound []) =
     [[(''VCAP_SERVICES'', JObj [(''p-mysql'', JArr [JObj [(''name'', JStr ''mysql'')]])])]]
   \<and> find_application_services pf_one_plain all_ok cfg0 ''billing'' [] =
     (Returned [], [RunCmd ''cf env billing''])
   \<and> find_application_services pf_two_keyed all_ok cfg0 ''billing'' [] =
     (Returned [], [RunCmd ''cf env billing''])
   \<and> find_application_services pf_bound all_ok cfg0 ''billing'' [] =
     (Returned [svc_mysql], [RunCmd ''cf env billing''])"
proof -
  have cmd: "cf_cmd cfg0 @ '' env '' @ ''billing'' = ''cf env billing''"
    by (simp add: cfg0_def)
  have bad: "fst (cf_fails_silently [] (RunCmd ''cf env billing'')) \<noteq> 0"
    by (simp add: cf_fails_silently_def)
  have ok: "fst (all_ok t c) = 0" "snd (all_ok t c) = []" for t c
    by (simp_all add: all_ok_def)
  have e0: "extract_json pf0 s = []" for s
    by (simp add: pf0_def)
  have e1: "extract_json pf_one_plain s =
              [[(''VCAP_APPLICATION'', JObj [(''name'', JStr ''billing'')])]]" for s
    by (simp add: pf_one_plain_def pf0_def)
  have e2: "extract_json pf_two_keyed s =
              [[(''VCAP_SERVICES'', JObj [])], [(''VCAP_SERVICES'', JObj [])]]" for s
    by (simp add: pf_two_keyed_def pf0_def)
  have e3: "extract_json pf_bound s =
     [[(''VCAP_SERVICES'', JObj [(''p-mysql'', JArr [JObj [(''name'', JStr ''mysql'')]])])],
      [(''VCAP_APPLICATION'', JObj [(''name'', JStr ''billing'')])]]" for s
    by (simp add: pf_bound_def pf0_def)
  have two: "Suc k < 2 \<longleftrightarrow> k = 0" for k by auto
  have a: "find_application_services pf_two_plain cf_fails_silently cfg0 ''billing'' [] =
     (Exited ''Failed to query application environment variables.'',
      [RunCmd ''cf env billing''])"
    using service_resolution_discards_plain_objects
      [where orc = cf_fails_silently and tr = "[]" and cfg = cfg0 and appname = "''billing''"
         and pf = pf_two_plain, unfolded Let_def cmd, THEN conjunct1] bad
    by simp
  have b: "find_application_services pf0 all_ok cfg0 ''billing'' [RunCmd ''cf target''] =
     (Exited ''Error reading output from `cf env`'',
      [RunCmd ''cf target'', RunCmd ''cf env billing''])"
    using service_resolution_discards_plain_objects
      [where orc = all_ok and tr = "[RunCmd ''cf target'']" and cfg = cfg0
         and appname = "''billing''" and pf = pf0, unfolded Let_def cmd,
       THEN conjunct2, THEN conjunct1]
    by (simp add: ok e0)
  have c: "remove_pass 0 (extract_json pf_bound []) =
     [[(''VCAP_SERVICES'', JObj [(''p-mysql'', JArr [JObj [(''name'', JStr ''mysql'')]])])]]"
    using service_resolution_discards_plain_objects
      [where orc = all_ok and tr = "[]" and cfg = cfg0 and appname = "''billing''"
         and pf = pf_bound, unfolded Let_def cmd,
       THEN conjunct2, THEN conjunct2, THEN conjunct2, THEN conjunct1]
    by (simp add: ok e3 two)
  have d: "find_application_services pf_one_plain all_ok cfg0 ''billing'' [] =
     (Returned [], [RunCmd ''cf env billing''])"
    using service_resolution_discards_plain_objects
      [where orc = all_ok and tr = "[]" and cfg = cfg0 and appname = "''billing''"
         and pf = pf_one_plain, unfolded Let_def cmd,
       THEN conjunct2, THEN conjunct2, THEN conjunct2, THEN conjunct2, THEN conjunct1]
    by (simp add: ok e1)
  have e: "find_application_services pf_two_keyed all_ok cfg0 ''billing'' [] =
     (Returned [], [RunCmd ''cf env billing''])"
    using service_resolution_discards_plain_objects
      [where orc = all_ok and tr = "[]" and cfg = cfg0 and appname = "''billing''"
         and pf = pf_two_keyed, unfolded Let_def cmd,
       THEN conjunct2, THEN conjunct2, THEN conjunct2, THEN conjunct2, THEN conjunct2,
       THEN conjunct1]
    by (simp add: ok e2 two)
  have f: "find_application_services pf_bound all_ok cfg0 ''billing'' [] =
     (Returned [svc_mysql], [RunCmd ''cf env billing''])"
    using service_resolution_discards_plain_objects
      [where orc = all_ok and tr = "[]" and cfg = cfg0 and appname = "''billing''"
         and pf = pf_bound
         and obj = "[(''VCAP_SERVICES'',
                     JObj [(''p-mysql'', JArr [JObj [(''name'', JStr ''mysql'')]])])]",
       unfolded Let_def cmd,
       THEN conjunct2, THEN conjunct2, THEN conjunct2, THEN conjunct2, THEN conjunct2,
       THEN conjunct2]
    by (simp add: ok e3 two py_iter_def List.map_filter_def pf_bound_def pf0_def)
  show ?thesis using a b c d e f by blast
qed

section \<open>Properties of serialization\<close>

text \<open>
  C9. The dictionary of \<open>App.serialize\<close> has the keys \<open>org\<close>, \<open>space\<close>, \<open>name\<close>, \<open>guid\<close>,
  \<open>services\<close>, \<open>instances\<close>, in this order; the first four hold the fields of the
  application; \<open>services\<close> and \<open>instances\<close> hold lists as long as the application's
  services and instances. Two applications with the same serialized form therefore agree
  on \<open>org\<close>, \<open>space\<close>, \<open>name\<close>, \<open>guid\<close> and on both counts.
\<close>

theorem serialize_keeps_identity_and_counts:
  "map fst (serialize ss si self) =
     [''org'', ''space'', ''name'', ''guid'', ''services'', ''instances'']
   \<and> map_of (serialize ss si self) ''org'' = Some (JStr (org self))
   \<and> map_of (serialize ss si self) ''space'' = Some (JStr (space self))
   \<and> map_of (serialize ss si self) ''name'' = Some (JStr (name self))
   \<and> map_of (serialize ss si self) ''guid'' =
       Some (case guid self of None \<Rightarrow> JNull | Some g \<Rightarrow> JStr g)
   \<and> (\<exists>xs. map_of (serialize ss si self) ''services'' = Some (JArr xs)
            \<and> length xs = length (services self))
   \<and> (\<exists>ys. map_of (serialize ss si self) ''instances'' = Some (JArr ys)
            \<and> length ys = length (instances self))
   \<and> (serialize ss si self = serialize ss si other \<longrightarrow>
         org self = org other \<and> space self = space other \<and> name self = name other
         \<and> guid self = guid other
         \<and> length (services self) = length (services other)
         \<and> length (instances self) = length (instances other))"
proof -
  have inj: "serialize ss si self = serialize ss si other \<Longrightarrow>
         org self = org other \<and> space self = space other \<and> name self = name other
         \<and> guid self = guid other
         \<and> length (services self) = length (services other)
         \<and> length (instances self) = length (instances other)"
    unfolding serialize_def
    by (auto split: option.splits dest: map_eq_imp_length_eq)
  show ?thesis
    using inj by (simp add: serialize_def)
qed

theorem serialize_keeps_identity_and_counts_witness:
  "map_of (serialize ser_service0 ser_instance0 shop) ''org'' = Some (JStr ''dev'')
   \<and> map_of (serialize ser_service0 ser_instance0 shop) ''guid'' = Some (JStr ''def-456'')
   \<and> map_of (serialize ser_service0 ser_instance0 billing) ''guid'' = Some (JStr ''abc-123'')
   \<and> serialize ser_service0 ser_instance0 shop =
       serialize ser_service0 ser_instance0 (shop\<lparr>services := [svc_logger, svc_mysql]\<rparr>)
   \<and> length (services shop) = length (services (shop\<lparr>services := [svc_logger, svc_mysql]\<rparr>))"
proof -
  have same: "serialize ser_service0 ser_instance0 shop =
       serialize ser_service0 ser_instance0 (shop\<lparr>services := [svc_logger, svc_mysql]\<rparr>)"
    by (simp add: serialize_def shop_def)
  note th = serialize_keeps_identity_and_counts
      [where ss = ser_service0 and si = ser_instance0 and self = shop
         and other = "shop\<lparr>services := [svc_logger, svc_mysql]\<rparr>"]
  note tb = serialize_keeps_identity_and_counts
      [where ss = ser_service0 and si = ser_instance0 and self = billing and other = billing]
  have o: "map_of (serialize ser_service0 ser_instance0 shop) ''org'' = Some (JStr ''dev'')"
    using th by (simp add: shop_def)
  have g: "map_of (serialize ser_service0 ser_instance0 shop) ''guid'' = Some (JStr ''def-456'')"
    using th by (simp add: shop_def)
  have gb: "map_of (serialize ser_service0 ser_instance0 billing) ''guid'' =
              Some (JStr ''abc-123'')"
    using tb by (simp add: billing_def)
  have l: "length (services shop) = length (services (shop\<lparr>services := [svc_logger, svc_mysql]\<rparr>))"
    using th same by blast
  show ?thesis using o g gb same l by blast
qed

section \<open>Properties of rediscovery\<close>

lemma add_custom_services_extends:
  "add_custom_services pf cs acc tr = (r, tr') \<Longrightarrow> \<exists>rest. tr' = tr @ rest"
proof (induction cs arbitrary: acc tr)
  case Nil
  then show ?case by simp
next
  case (Cons c cs)
  show ?case
  proof (cases "gethostbyname pf (cs_host c)")
    case None
    with Cons.prems show ?thesis by auto
  next
    case (Some addr)
    with Cons.prems obtain rest where "tr' = (tr @ [GetHostByName (cs_host c)]) @ rest"
      using Cons.IH by fastforce
    then show ?thesis by simp
  qed
qed

lemma add_services_from_cfg_extends:
  "add_services_from_cfg pf cfg self tr = (r, tr') \<Longrightarrow> \<exists>rest. tr' = tr @ rest"
  unfolding add_services_from_cfg_def
  by (auto split: option.splits prod.splits outcome.splits dest: add_custom_services_extends)

lemma find_application_guid_extends:
  "find_application_guid orc cfg appname tr = (r, tr') \<Longrightarrow> \<exists>rest. tr' = tr @ rest"
  unfolding find_application_guid_def Let_def
  by (auto split: if_splits list.splits)

lemma resolve_instance_extends:
  "resolve_instance pf orc cfg raw tr = (r, tr') \<Longrightarrow> \<exists>rest. tr' = tr @ rest"
  unfolding resolve_instance_def Let_def
  by (auto split: outcome.splits if_splits)

lemma instances_loop_extends:
  "instances_loop pf orc cfg g raws acc tr = (r, tr') \<Longrightarrow> \<exists>rest. tr' = tr @ rest"
proof (induction raws arbitrary: acc tr)
  case Nil
  then show ?case by simp
next
  case (Cons raw raws)
  show ?case
  proof (cases "raw_app_guid raw \<noteq> g \<or> raw_state raw \<noteq> ''RUNNING''")
    case True
    with Cons.prems have "instances_loop pf orc cfg g raws acc tr = (r, tr')"
      by (auto split: if_splits)
    then show ?thesis by (rule Cons.IH)
  next
    case False
    obtain ro t1 where res: "resolve_instance pf orc cfg raw tr = (ro, t1)"
      by (cases "resolve_instance pf orc cfg raw tr")
    then obtain r1 where t1: "t1 = tr @ r1" using resolve_instance_extends by blast
    show ?thesis
    proof (cases ro)
      case (Returned ai)
      with False res Cons.prems have "instances_loop pf orc cfg g raws (acc @ [ai]) t1 = (r, tr')"
        by simp
      then obtain r2 where "tr' = t1 @ r2" using Cons.IH by blast
      with t1 show ?thesis by simp
    next
      case (Raised e)
      with False res Cons.prems t1 show ?thesis by auto
    next
      case (Exited m)
      with False res Cons.prems t1 show ?thesis by auto
    qed
  qed
qed

lemma find_application_instances_extends:
  "find_application_instances pf orc cfg g tr = (r, tr') \<Longrightarrow> \<exists>rest. tr' = tr @ rest"
proof -
  assume a: "find_application_instances pf orc cfg g tr = (r, tr')"
  show ?thesis
  proof (cases "bosh_get_apps pf tr = []")
    case True
    with a show ?thesis by (auto simp: find_application_instances_def Let_def)
  next
    case False
    obtain ro t1 where l: "instances_loop pf orc cfg g (bosh_get_apps pf tr) [] (tr @ [BoshGetApps]) = (ro, t1)"
      by (cases "instances_loop pf orc cfg g (bosh_get_apps pf tr) [] (tr @ [BoshGetApps])")
    then obtain r1 where "t1 = (tr @ [BoshGetApps]) @ r1" using instances_loop_extends by blast
    moreover have "tr' = t1"
      using a l False by (auto simp: find_application_instances_def Let_def split: outcome.splits)
    ultimately show ?thesis by simp
  qed
qed

lemma find_application_services_extends:
  "find_application_services pf orc cfg appname tr = (r, tr') \<Longrightarrow> \<exists>rest. tr' = tr @ rest"
  unfolding find_application_services_def Let_def
  by (auto split: if_splits option.splits json.splits)


lemma discover_extends:
  assumes "discover pf orc cfg org_name space_name appname tr = (r, tr')"
  shows "\<exists>rest. tr' = tr @ rest"
proof (cases "fst (orc tr (CfTarget org_name space_name)) \<noteq> 0")
  case True
  with assms show ?thesis by (auto simp: discover_def)
next
  case False
  let ?t1 = "tr @ [CfTarget org_name space_name]"
  let ?a0 = "\<lparr>org = org_name, space = space_name, name = appname, guid = None,
              services = [], instances = []\<rparr>"
  obtain r1 t2 where s1: "add_services_from_cfg pf cfg ?a0 ?t1 = (r1, t2)"
    by (cases "add_services_from_cfg pf cfg ?a0 ?t1")
  then obtain x2 where t2: "t2 = ?t1 @ x2" using add_services_from_cfg_extends by blast
  show ?thesis
  proof (cases r1)
    case (Raised e)
    with assms False s1 t2 show ?thesis by (auto simp: discover_def)
  next
    case (Exited m)
    with assms False s1 t2 show ?thesis by (auto simp: discover_def)
  next
    case (Returned app1)
    obtain r2 t3 where s2: "find_application_guid orc cfg (name app1) t2 = (r2, t3)"
      by (cases "find_application_guid orc cfg (name app1) t2")
    then obtain x3 where t3: "t3 = t2 @ x3" using find_application_guid_extends by blast
    show ?thesis
    proof (cases r2)
      case (Raised e)
      with assms False s1 t2 s2 t3 Returned show ?thesis by (auto simp: discover_def)
    next
      case (Exited m)
      with assms False s1 t2 s2 t3 Returned show ?thesis by (auto simp: discover_def)
    next
      case g: (Returned g)
      show ?thesis
      proof (cases "g = []")
        case True
        with assms False s1 t2 s2 t3 Returned g show ?thesis by (auto simp: discover_def)
      next
        case gne: False
        obtain r3 t4 where s3: "find_application_instances pf orc cfg g t3 = (r3, t4)"
          by (cases "find_application_instances pf orc cfg g t3")
        then obtain x4 where t4: "t4 = t3 @ x4"
          using find_application_instances_extends by blast
        obtain r4 t5 where s4: "find_application_services pf orc cfg (name app1) t4 = (r4, t5)"
          by (cases "find_application_services pf orc cfg (name app1) t4")
        then obtain x5 where t5: "t5 = t4 @ x5"
          using find_application_services_extends by blast
        have "tr' = t4 \<or> tr' = t5"
          using assms False s1 s2 s3 s4 Returned g gne
          by (auto simp: discover_def split: outcome.splits option.splits if_splits)
        with t2 t3 t4 t5 show ?thesis by auto
      qed
    qed
  qed
qed

lemma unmanipulate_loop_trace:
  "unmanipulate_loop insts tr = tr @ map InstUnmanipulate insts"
  by (induction insts arbitrary: tr) simp_all

lemma undo_all_trace:
  "undo_all orc cfg n self tr =
     tr @ map (\<lambda>i. InstUnblock i None) (instances self)
        @ concat (map (\<lambda>j. if unblock_service_cmds cfg n None j (services self) = [] then []
                            else [DiegoRunCmd (diego_id j)
                                    (CmdList (unblock_service_cmds cfg n None j (services self)))
                                    True])
                    (instances self))
        @ map InstUnmanipulate (instances self)"
  by (simp add: undo_all_def unmanipulate_network_def unmanipulate_loop_trace
        unblock_services_def unblock_services_loop_trace unblock_def unblock_loop_trace)

text \<open>
  C10. When the fresh discovery of \<open>App.rediscover\<close> returns \<open>None\<close>, \<open>rediscover\<close> raises
  (\<open>AttributeError\<close>, on reading \<open>__dict__\<close> from \<open>None\<close>) and the application keeps all its
  fields; by then \<open>undo_all\<close> has run on the old state: one unblock on every instance,
  the delete batches of \<open>unblock_services\<close>, and one \<open>unmanipulate_network\<close> on every
  instance come first in what was done, before the calls of the discovery.
\<close>

theorem rediscover_failed_discovery_keeps_state:
  "discover pf orc cfg (org self) (space self) (name self) (undo_all orc cfg n self tr)
     = (Returned None, tr')
   \<longrightarrow> rediscover pf orc cfg n self tr = (Raised AttributeError, self, tr')
       \<and> (\<exists>rest. tr' =
             tr @ map (\<lambda>i. InstUnblock i None) (instances self)
                @ concat (map (\<lambda>j. if unblock_service_cmds cfg n None j (services self) = []
                                    then []
                                    else [DiegoRunCmd (diego_id j)
                                            (CmdList (unblock_service_cmds cfg n None j
                                                        (services self)))
                                            True])
                            (instances self))
                @ map InstUnmanipulate (instances self)
                @ rest)"
proof
  assume d: "discover pf orc cfg (org self) (space self) (name self)
               (undo_all orc cfg n self tr) = (Returned None, tr')"
  then have r: "rediscover pf orc cfg n self tr = (Raised AttributeError, self, tr')"
    by (simp add: rediscover_def)
  from d obtain rest where "tr' = undo_all orc cfg n self tr @ rest"
    using discover_extends by blast
  then have "tr' =
             tr @ map (\<lambda>i. InstUnblock i None) (instances self)
                @ concat (map (\<lambda>j. if unblock_service_cmds cfg n None j (services self) = []
                                    then []
                                    else [DiegoRunCmd (diego_id j)
                                            (CmdList (unblock_service_cmds cfg n None j
                                                        (services self)))
                                            True])
                            (instances self))
                @ map InstUnmanipulate (instances self)
                @ rest"
    by (simp add: undo_all_trace)
  with r show "rediscover pf orc cfg n self tr = (Raised AttributeError, self, tr')
       \<and> (\<exists>rest. tr' =
             tr @ map (\<lambda>i. InstUnblock i None) (instances self)
                @ concat (map (\<lambda>j. if unblock_service_cmds cfg n None j (services self) = []
                                    then []
                                    else [DiegoRunCmd (diego_id j)
                                            (CmdList (unblock_service_cmds cfg n None j
                                                        (services self)))
                                            True])
                            (instances self))
                @ map InstUnmanipulate (instances self)
                @ rest)"
    by blast
qed

theorem rediscover_failed_discovery_keeps_state_witness:
  "discover pf0 target_fails cfg0 (org shop) (space shop) (name shop)
     (undo_all target_fails cfg0 2 shop [])
     = (Returned None, undo_all target_fails cfg0 2 shop [] @ [CfTarget ''dev'' ''staging''])
   \<and> rediscover pf0 target_fails cfg0 2 shop [] =
       (Raised AttributeError, shop,
        undo_all target_fails cfg0 2 shop [] @ [CfTarget ''dev'' ''staging''])"
proof -
  have d: "discover pf0 target_fails cfg0 (org shop) (space shop) (name shop)
     (undo_all target_fails cfg0 2 shop [])
     = (Returned None, undo_all target_fails cfg0 2 shop [] @ [CfTarget ''dev'' ''staging''])"
    by (simp add: discover_def target_fails_def shop_def)
  show ?thesis
    using d rediscover_failed_discovery_keeps_state
      [where pf = pf0 and orc = target_fails and cfg = cfg0 and self = shop and n = 2
         and tr = "[]"
         and tr' = "undo_all target_fails cfg0 2 shop [] @ [CfTarget ''dev'' ''staging'']"]
    by blast
qed

end
